theory Spec2Isabelle
  imports Main "HOL-Library.Word" "HOL-Library.Code_Target_Nat"
begin

section \<open>JavaScript values used by the identifier pipeline\<close>

text \<open>
  Identifiers are JavaScript strings; they are modelled as \<^typ>\<open>string\<close> (a list of
  8-bit characters), so the model covers strings whose code units are below 256, and case
  mapping is the one of the ASCII letters. Numbers are modelled as \<^typ>\<open>int\<close>: the
  options of the library are integral lengths, counts and offsets. A \<open>Buffer\<close> is a list
  of bytes.
\<close>

type_synonym byte = "8 word"
type_synonym buffer = "byte list"

text \<open>
  \<open>String.prototype.slice\<close>: a negative index counts from the end of the string, every
  index is clamped to the string, and an empty range gives the empty string.
\<close>

definition relIndex :: "int \<Rightarrow> nat \<Rightarrow> nat" where
  "relIndex k len = (if k < 0 then nat (max (int len + k) 0) else min (nat k) len)"

definition slice :: "string \<Rightarrow> int \<Rightarrow> int \<Rightarrow> string" where
  "slice s a b =
     (let from = relIndex a (length s); to = relIndex b (length s)
      in take (to - from) (drop from s))"

definition sliceFrom :: "string \<Rightarrow> int \<Rightarrow> string" where
  "sliceFrom s a = drop (relIndex a (length s)) s"

text \<open>\<open>s.substring(0, n)\<close>: a negative \<open>n\<close> is read as 0.\<close>

definition substring0 :: "string \<Rightarrow> int \<Rightarrow> string" where
  "substring0 s n = take (nat n) s"

definition startsWith :: "string \<Rightarrow> string \<Rightarrow> bool" where
  "startsWith s p = (take (length p) s = p)"

definition endsWith :: "string \<Rightarrow> string \<Rightarrow> bool" where
  "endsWith s p = (length p \<le> length s \<and> drop (length s - length p) s = p)"

text \<open>
  \<open>s.split(sep)\<close> for a non-empty separator scans left to right and cuts at every
  occurrence; for the empty separator it cuts between all characters.
  \<open>segments.join(sep)\<close> puts the separator between neighbours.
\<close>

function splitFrom :: "string \<Rightarrow> string \<Rightarrow> string \<Rightarrow> string list" where
  "splitFrom sep cur s =
     (if s = [] then [cur]
      else if sep \<noteq> [] \<and> startsWith s sep
        then cur # splitFrom sep [] (drop (length sep) s)
      else splitFrom sep (cur @ [hd s]) (tl s))"
  by pat_completeness auto
termination
  by (relation "measure (\<lambda>(sep, cur, s). length s)") auto

declare splitFrom.simps [simp del]

definition split :: "string \<Rightarrow> string \<Rightarrow> string list" where
  "split s sep = (if sep = [] then map (\<lambda>c. [c]) s else splitFrom sep [] s)"

fun join :: "string list \<Rightarrow> string \<Rightarrow> string" where
  "join [] sep = []"
| "join [x] sep = x"
| "join (x # y # ys) sep = x @ sep @ join (y # ys) sep"

definition upperChar :: "char \<Rightarrow> char" where
  "upperChar c =
     (let n = of_char c :: nat
      in if 97 \<le> n \<and> n \<le> 122 then char_of (n - 32) else c)"

definition lowerChar :: "char \<Rightarrow> char" where
  "lowerChar c =
     (let n = of_char c :: nat
      in if 65 \<le> n \<and> n \<le> 90 then char_of (n + 32) else c)"

definition toUpperCase :: "string \<Rightarrow> string" where
  "toUpperCase s = map upperChar s"

definition toLowerCase :: "string \<Rightarrow> string" where
  "toLowerCase s = map lowerChar s"

section \<open>Options\<close>

datatype algorithm =
  SHA256 | SHA512 | SHA3_256 | SHA3_512 | BLAKE2B512 | SHAKE256 | KYBER768 | DILITHIUM3

datatype mode = Random | Hash | Hmac | Hybrid | HmacHash | MemoryHard

datatype caseType = Upper | Lower | Mixed

datatype checksumPosition = Start | Middle | End | Positions "int list"

datatype verificationMethod =
  ViaChecksum | ViaHmac | ViaTimestamp | ViaSignature | ViaExpiry | ViaDevice | ViaGeo

record rateLimitOptions =
  maxRequests :: int
  windowMs :: int
  limiterKey :: string

text \<open>
  \<open>SecurityOptions\<close>. An absent field is the value the destructuring of the source gives
  it: \<open>False\<close>, the empty string, \<open>None\<close> or the empty list, all of them falsy.
  \<open>collisionDetection\<close> and \<open>audit\<close> hold the \<open>enabled\<close> flag of their records.
\<close>

record securityOptions =
  enhanceEntropy :: bool
  memoryHard :: bool
  doubleHash :: bool
  avoidAmbiguousChars :: bool
  enforceCharset :: string
  reseed :: bool
  timestampEmbed :: bool
  counterEmbed :: bool
  ttl :: "int option"
  embedExpiry :: bool
  rateLimit :: "rateLimitOptions option"
  collisionDetection :: bool
  audit :: bool
  verifyMultiFactor :: "verificationMethod list"
  embedGeo :: bool
  geoRegion :: string
  deviceBinding :: bool
  deviceId :: string
  checkRevocation :: bool
  useQuantumRNG :: bool
  qrngProvider :: string
  steganography :: bool
  hiddenData :: string
  secureDelete :: bool

text \<open>\<open>SecureIdOptions\<close>, with \<open>originalId\<close> of \<open>VerifyOptions\<close>.\<close>

record options =
  lengthOpt :: int
  algorithm :: algorithm
  mode :: mode
  caseOpt :: caseType
  separator :: string
  separatorLength :: int
  checksum :: bool
  checksumCount :: int
  checksumLength :: int
  checksumPosition :: checksumPosition
  prefix :: string
  suffix :: string
  secret :: string
  salt :: string
  pepper :: string
  security :: securityOptions
  originalId :: string

text \<open>The empty options record \<open>{}\<close>, every field at the default of the source.\<close>

definition defaultSecurity :: securityOptions where
  "defaultSecurity =
     \<lparr> enhanceEntropy = False, memoryHard = False, doubleHash = False,
       avoidAmbiguousChars = False, enforceCharset = [], reseed = False,
       timestampEmbed = False, counterEmbed = False, ttl = None, embedExpiry = False,
       rateLimit = None, collisionDetection = False, audit = False,
       verifyMultiFactor = [], embedGeo = False, geoRegion = [], deviceBinding = False,
       deviceId = [], checkRevocation = False, useQuantumRNG = False,
       qrngProvider = ''local'', steganography = False, hiddenData = [],
       secureDelete = False \<rparr>"

definition defaultOptions :: options where
  "defaultOptions =
     \<lparr> lengthOpt = 32, algorithm = SHA256, mode = Random, caseOpt = Upper,
       separator = [], separatorLength = 8, checksum = False, checksumCount = 1,
       checksumLength = 1, checksumPosition = End, prefix = [], suffix = [],
       secret = [], salt = [], pepper = [], security = defaultSecurity,
       originalId = [] \<rparr>"

section \<open>Checksum placement (addChecksums) and its inverse (helpers)\<close>

text \<open>
  The insertion half of \<open>addChecksums\<close>. For a position list the loop runs over the
  blocks and the positions together and inserts block \<open>i\<close> at \<open>position[i] + offset\<close>,
  where \<open>offset\<close> is the total length of the blocks inserted so far.
\<close>

fun insertLoop :: "string list \<Rightarrow> int list \<Rightarrow> string \<Rightarrow> int \<Rightarrow> string" where
  "insertLoop (c # cs) (p # ps) result offset =
     (let pos = p + offset
      in insertLoop cs ps (slice result 0 pos @ c @ sliceFrom result pos)
           (offset + int (length c)))"
| "insertLoop cs ps result offset = result"

definition insertChecksums :: "string \<Rightarrow> string list \<Rightarrow> checksumPosition \<Rightarrow> string" where
  "insertChecksums ident checksums position =
     (case position of
        Positions ps \<Rightarrow> insertLoop checksums ps ident 0
      | Start \<Rightarrow> join checksums [] @ ident
      | Middle \<Rightarrow>
          (let mid = int (length ident) div 2
           in slice ident 0 mid @ join checksums [] @ sliceFrom ident mid)
      | End \<Rightarrow> ident @ join checksums [])"

text \<open>The three framing steps that \<open>extractCoreId\<close> and \<open>extractChecksums\<close> share.\<close>

definition removePrefix :: "options \<Rightarrow> string \<Rightarrow> string" where
  "removePrefix opts coreId =
     (if prefix opts \<noteq> [] then
        (let prefixWithSep = prefix opts @ separator opts
         in if startsWith coreId prefixWithSep
              then sliceFrom coreId (int (length prefixWithSep))
            else if startsWith coreId (prefix opts)
              then sliceFrom coreId (int (length (prefix opts)))
            else coreId)
      else coreId)"

definition removeSuffix :: "options \<Rightarrow> string \<Rightarrow> string" where
  "removeSuffix opts coreId =
     (if suffix opts \<noteq> [] then
        (let suffixWithSep = separator opts @ suffix opts
         in if endsWith coreId suffixWithSep
              then slice coreId 0 (- int (length suffixWithSep))
            else if endsWith coreId (suffix opts)
              then slice coreId 0 (- int (length (suffix opts)))
            else coreId)
      else coreId)"

definition removeSeparators :: "options \<Rightarrow> string \<Rightarrow> string" where
  "removeSeparators opts coreId =
     (if separator opts \<noteq> [] then join (split coreId (separator opts)) [] else coreId)"

text \<open>
  \<open>extractCoreId\<close>. For a position list it cuts \<open>checksumLength\<close> characters at each
  declared position, largest position first.
\<close>

definition removeAt :: "int \<Rightarrow> string \<Rightarrow> int \<Rightarrow> string" where
  "removeAt singleChecksumLength result pos =
     (if pos < int (length result)
        then slice result 0 pos @ sliceFrom result (pos + singleChecksumLength)
      else result)"

definition removeChecksums :: "options \<Rightarrow> string \<Rightarrow> string" where
  "removeChecksums opts coreId =
     (if checksum opts then
        (let totalChecksumLength = checksumCount opts * checksumLength opts
         in case checksumPosition opts of
              Positions ps \<Rightarrow>
                foldl (removeAt (checksumLength opts)) coreId (rev (sort ps))
            | Start \<Rightarrow> sliceFrom coreId totalChecksumLength
            | Middle \<Rightarrow>
                (let totalLength = int (length coreId);
                     actualLength = totalLength - totalChecksumLength;
                     mid = actualLength div 2
                 in slice coreId 0 mid @ sliceFrom coreId (mid + totalChecksumLength))
            | End \<Rightarrow> slice coreId 0 (- totalChecksumLength))
      else coreId)"

definition extractCoreId :: "string \<Rightarrow> options \<Rightarrow> string" where
  "extractCoreId ident opts =
     removeChecksums opts (removeSeparators opts (removeSuffix opts (removePrefix opts ident)))"

text \<open>
  \<open>extractChecksums\<close>. For a position list it reads \<open>checksumLength\<close> characters at each
  declared position that lies inside the string.
\<close>

definition blocksFrom :: "string \<Rightarrow> int \<Rightarrow> int \<Rightarrow> int \<Rightarrow> string list" where
  "blocksFrom workingId start count len =
     map (\<lambda>i. slice workingId (start + int i * len) (start + (int i + 1) * len))
       [0 ..< nat count]"

definition extractChecksums :: "string \<Rightarrow> options \<Rightarrow> string list" where
  "extractChecksums ident opts =
     (if \<not> checksum opts then []
      else
        (let workingId = removeSeparators opts (removeSuffix opts (removePrefix opts ident))
         in case checksumPosition opts of
              Positions ps \<Rightarrow>
                map (\<lambda>pos. slice workingId pos (pos + checksumLength opts))
                  (filter (\<lambda>pos. pos < int (length workingId)) ps)
            | Start \<Rightarrow> blocksFrom workingId 0 (checksumCount opts) (checksumLength opts)
            | Middle \<Rightarrow>
                (let coreLength =
                       int (length workingId) - checksumCount opts * checksumLength opts;
                     mid = coreLength div 2
                 in blocksFrom workingId mid (checksumCount opts) (checksumLength opts))
            | End \<Rightarrow>
                (let startPos =
                       int (length workingId) - checksumCount opts * checksumLength opts
                 in blocksFrom workingId startPos (checksumCount opts) (checksumLength opts))))"

section \<open>Errors, the environment and the process-wide state\<close>

text \<open>
  Every \<open>throw\<close> of the source and every exception of the platform that the pipeline can
  meet is a value of \<open>error\<close>; a function that can raise returns \<open>error + 'a\<close>.
\<close>

datatype error =
    RateLimitExceeded
  | SecretRequiredForMode mode
  | TtlRequired
  | DeviceIdRequired
  | MaxAttemptsExceeded
  | SecretRequiredForHmac
  | SyntaxError
  | RangeError
  | LibraryError

text \<open>A primitive of the platform or of the host that raises: \<open>None\<close>.\<close>

definition fromLibrary :: "'a option \<Rightarrow> error + 'a" where
  "fromLibrary r = (case r of None \<Rightarrow> Inl LibraryError | Some v \<Rightarrow> Inr v)"

definition bindE :: "error + 'a \<Rightarrow> ('a \<Rightarrow> error + 'b) \<Rightarrow> error + 'b" where
  "bindE r f = (case r of Inl e \<Rightarrow> Inl e | Inr v \<Rightarrow> f v)"

text \<open>
  What the platform and the host application supply: the clock, the secure random source
  (\<open>entropy k\<close> is the \<open>k\<close>-th value it delivers), the primitives of the \<open>crypto\<close> module
  by the name of the digest, the simulated post-quantum signature, the revocation list,
  the audit logger and the clock-dependent expiry test. They are parameters: every theorem
  below holds for each of them. A primitive that can raise (an unknown digest name, a
  logger or a revocation list of the host) returns an option.
\<close>

record env =
  now :: int
  entropy :: "nat \<Rightarrow> nat"
  createHash :: "string \<Rightarrow> buffer \<Rightarrow> buffer"
  createHmac :: "string \<Rightarrow> string \<Rightarrow> buffer \<Rightarrow> buffer option"
  hkdfSync :: "string \<Rightarrow> string \<Rightarrow> string \<Rightarrow> string \<Rightarrow> nat \<Rightarrow> buffer option"
  pbkdf2Sync :: "string \<Rightarrow> string \<Rightarrow> int \<Rightarrow> nat \<Rightarrow> string \<Rightarrow> buffer"
  postQuantumSign :: "buffer \<Rightarrow> algorithm \<Rightarrow> buffer"
  revocationList :: "string \<Rightarrow> bool option"
  auditLogger :: "string \<Rightarrow> string \<Rightarrow> bool \<Rightarrow> unit option"
  isExpired :: "string \<Rightarrow> bool"
  extractGeoRegion :: "string \<Rightarrow> string"

text \<open>
  The module-level variables: the counter of \<open>getCounter\<close>, the rate-limit store (a
  map from the limiter key to the count and the reset time, kept as an association list
  whose first binding of a key is the current one), the collision store, and the number
  of values drawn from the random source so far.
\<close>

record gstate =
  globalCounter :: nat
  drawn :: nat
  rateLimitStore :: "(string \<times> int \<times> int) list"
  collisionStore :: "string list"

section \<open>crypto-utils\<close>

definition generateRandomBytes :: "env \<Rightarrow> int \<Rightarrow> gstate \<Rightarrow> error + buffer \<times> gstate" where
  "generateRandomBytes e n st =
     (if n < 0 \<or> 2147483647 < n then Inl RangeError
      else Inr (map (\<lambda>k. word_of_nat (entropy e k)) [drawn st ..< drawn st + nat n],
                st\<lparr>drawn := drawn st + nat n\<rparr>))"

text \<open>\<open>crypto.randomInt(0, n)\<close>: a value below \<open>n\<close>, an error when the range is empty.\<close>

definition randomInt :: "env \<Rightarrow> nat \<Rightarrow> gstate \<Rightarrow> error + nat \<times> gstate" where
  "randomInt e n st =
     (if n = 0 then Inl RangeError
      else Inr (entropy e (drawn st) mod n, st\<lparr>drawn := drawn st + 1\<rparr>))"

definition digitChar :: "nat \<Rightarrow> char" where
  "digitChar d = ''0123456789abcdefghijklmnopqrstuvwxyz'' ! d"

text \<open>\<open>Number.prototype.toString(radix)\<close> for the radices the library uses, 10 and 36.\<close>

function natToString :: "nat \<Rightarrow> nat \<Rightarrow> string" where
  "natToString radix n =
     (if radix < 2 \<or> n < radix then [digitChar n]
      else natToString radix (n div radix) @ [digitChar (n mod radix)])"
  by pat_completeness auto
termination
  by (relation "measure (\<lambda>(radix, n). n)") auto

declare natToString.simps [simp del]

definition numberToString :: "nat \<Rightarrow> int \<Rightarrow> string" where
  "numberToString radix x =
     (if x < 0 then CHR ''-'' # natToString radix (nat (- x)) else natToString radix (nat x))"

text \<open>\<open>buffer.toString('hex')\<close> and \<open>Buffer.from(string)\<close> (UTF-8).\<close>

definition toHex :: "buffer \<Rightarrow> string" where
  "toHex b = concat (map (\<lambda>w. [digitChar (unat w div 16), digitChar (unat w mod 16)]) b)"

definition utf8 :: "string \<Rightarrow> buffer" where
  "utf8 s =
     concat (map (\<lambda>c. let n = of_char c :: nat
                      in if n < 128 then [word_of_nat n]
                         else [word_of_nat (192 + n div 64), word_of_nat (128 + n mod 64)]) s)"

definition b64Char :: "nat \<Rightarrow> char" where
  "b64Char n = ''ABCDEFGHIJKLMNOPQRSTUVWXYZabcdefghijklmnopqrstuvwxyz0123456789+/'' ! n"

fun base64 :: "buffer \<Rightarrow> string" where
  "base64 (a # b # c # rest) =
     (let n = unat a * 65536 + unat b * 256 + unat c
      in [b64Char (n div 262144), b64Char (n div 4096 mod 64), b64Char (n div 64 mod 64),
          b64Char (n mod 64)] @ base64 rest)"
| "base64 [a, b] =
     (let n = unat a * 1024 + unat b * 4
      in [b64Char (n div 4096), b64Char (n div 64 mod 64), b64Char (n mod 64), CHR ''=''])"
| "base64 [a] =
     (let n = unat a * 16 in [b64Char (n div 64), b64Char (n mod 64), CHR ''='', CHR ''=''])"
| "base64 [] = []"

definition algorithmName :: "algorithm \<Rightarrow> string" where
  "algorithmName a =
     (case a of SHA256 \<Rightarrow> ''sha256'' | SHA512 \<Rightarrow> ''sha512'' | SHA3_256 \<Rightarrow> ''sha3-256''
      | SHA3_512 \<Rightarrow> ''sha3-512'' | BLAKE2B512 \<Rightarrow> ''blake2b512'' | SHAKE256 \<Rightarrow> ''shake256''
      | KYBER768 \<Rightarrow> ''kyber768'' | DILITHIUM3 \<Rightarrow> ''dilithium3'')"

definition hashData :: "env \<Rightarrow> buffer \<Rightarrow> algorithm \<Rightarrow> buffer" where
  "hashData e d a =
     (case a of
        SHA256 \<Rightarrow> createHash e ''sha256'' d
      | SHA512 \<Rightarrow> createHash e ''sha512'' d
      | SHA3_256 \<Rightarrow> createHash e ''sha3-256'' d
      | SHA3_512 \<Rightarrow> createHash e ''sha3-512'' d
      | BLAKE2B512 \<Rightarrow> createHash e ''blake2b512'' d
      | SHAKE256 \<Rightarrow> createHash e ''shake256'' d
      | _ \<Rightarrow> createHash e ''sha256'' d)"

text \<open>\<open>s.replace(pat, rep)\<close> with a string pattern: the first occurrence only.\<close>

fun replaceFirst :: "string \<Rightarrow> string \<Rightarrow> string \<Rightarrow> string" where
  "replaceFirst [] pat rep = (if pat = [] then rep else [])"
| "replaceFirst (c # cs) pat rep =
     (if startsWith (c # cs) pat then rep @ drop (length pat) (c # cs)
      else c # replaceFirst cs pat rep)"

text \<open>\<open>s.replace(/sha3-|shake/, 'sha')\<close>: the leftmost match of either alternative.\<close>

fun replaceSha3OrShake :: "string \<Rightarrow> string" where
  "replaceSha3OrShake [] = []"
| "replaceSha3OrShake (c # cs) =
     (if startsWith (c # cs) ''sha3-'' then ''sha'' @ drop 5 (c # cs)
      else if startsWith (c # cs) ''shake'' then ''sha'' @ drop 5 (c # cs)
      else c # replaceSha3OrShake cs)"

definition hmacSign :: "env \<Rightarrow> buffer \<Rightarrow> string \<Rightarrow> algorithm \<Rightarrow> error + buffer" where
  "hmacSign e d key a =
     (if a = SHAKE256 then fromLibrary (createHmac e ''sha3-256'' key d)
      else
        (let hmacAlgorithm =
               (if startsWith (algorithmName a) ''sha3-'' then algorithmName a
                else if a = BLAKE2B512 then ''blake2b512''
                else ''sha'' @ replaceFirst (algorithmName a) ''sha'' [])
         in fromLibrary (createHmac e hmacAlgorithm key d)))"

definition deriveKey :: "env \<Rightarrow> string \<Rightarrow> string \<Rightarrow> string \<Rightarrow> algorithm \<Rightarrow> error + buffer" where
  "deriveKey e sec slt pep a =
     (let info = ''hixbe-sig-v1'';
          keyLength = 32;
          hashAlg =
            (if startsWith (algorithmName a) ''sha3-'' then ''sha256''
             else if a = BLAKE2B512 then ''sha512''
             else algorithmName a)
      in fromLibrary (hkdfSync e (replaceSha3OrShake hashAlg) (sec @ pep) slt info keyLength))"

definition memoryHardDerive :: "env \<Rightarrow> string \<Rightarrow> string \<Rightarrow> int \<Rightarrow> buffer" where
  "memoryHardDerive e input sec iterations = pbkdf2Sync e input sec iterations 64 ''sha512''"

text \<open>
  \<open>timingSafeEqual\<close>: strings of different length are unequal; \<open>crypto.timingSafeEqual\<close>
  raises when the two encoded buffers differ in length.
\<close>

definition timingSafeEqual :: "string \<Rightarrow> string \<Rightarrow> error + bool" where
  "timingSafeEqual a b =
     (if length a \<noteq> length b then Inr False
      else if length (utf8 a) \<noteq> length (utf8 b) then Inl RangeError
      else Inr (utf8 a = utf8 b))"

text \<open>
  \<open>bufferToBase\<close>. \<open>BigInt('0x' + hex)\<close> reads the buffer as a big-endian natural
  number and is a syntax error for the empty buffer; \<open>num % 0n\<close> is a range error.
\<close>

definition bufferToNat :: "buffer \<Rightarrow> nat" where
  "bufferToNat b = foldl (\<lambda>acc w. acc * 256 + unat w) 0 b"

function digitLoop :: "string \<Rightarrow> int \<Rightarrow> nat \<Rightarrow> string \<Rightarrow> error + string" where
  "digitLoop charset len num result =
     (if 0 < num \<and> int (length result) < len then
        (if length charset = 0 then Inl RangeError
         else digitLoop charset len (num div length charset)
                (charset ! (num mod length charset) # result))
      else Inr result)"
  by pat_completeness auto
termination
  by (relation "measure (\<lambda>(charset, len, num, result). nat (len - int (length result)))") auto

declare digitLoop.simps [simp del]

function padLoop :: "env \<Rightarrow> string \<Rightarrow> int \<Rightarrow> string \<Rightarrow> gstate \<Rightarrow> error + string \<times> gstate" where
  "padLoop e charset len result st =
     (if int (length result) < len then
        (case randomInt e (length charset) st of
           Inl err \<Rightarrow> Inl err
         | Inr (randomIndex, st') \<Rightarrow> padLoop e charset len (charset ! randomIndex # result) st')
      else Inr (result, st))"
  by pat_completeness auto
termination
  by (relation "measure (\<lambda>(e, charset, len, result, st). nat (len - int (length result)))") auto

declare padLoop.simps [simp del]

definition bufferToBase ::
  "env \<Rightarrow> buffer \<Rightarrow> string \<Rightarrow> int \<Rightarrow> gstate \<Rightarrow> error + string \<times> gstate" where
  "bufferToBase e buf charset len st =
     (if buf = [] then Inl SyntaxError
      else
        bindE (digitLoop charset len (bufferToNat buf) [])
          (\<lambda>digits. bindE (padLoop e charset len digits st)
             (\<lambda>(result, st'). Inr (slice result 0 len, st'))))"

definition getCharset :: "bool \<Rightarrow> string \<Rightarrow> string" where
  "getCharset avoidAmbiguous enforced =
     (if enforced \<noteq> [] then enforced
      else if avoidAmbiguous then ''ABCDEFGHJKLMNPQRSTUVWXYZ23456789abcdefghjkmnpqrstuvwxyz''
      else ''ABCDEFGHIJKLMNOPQRSTUVWXYZabcdefghijklmnopqrstuvwxyz0123456789'')"

definition applyCase :: "string \<Rightarrow> caseType \<Rightarrow> string" where
  "applyCase str c =
     (case c of Upper \<Rightarrow> toUpperCase str | Lower \<Rightarrow> toLowerCase str | Mixed \<Rightarrow> str)"

definition generateTimestamp :: "env \<Rightarrow> string" where
  "generateTimestamp e = numberToString 36 (now e)"

definition getCounter :: "gstate \<Rightarrow> nat \<times> gstate" where
  "getCounter st = (globalCounter st, st\<lparr>globalCounter := globalCounter st + 1\<rparr>)"

section \<open>advanced-security: the collaborators of generation\<close>

definition checkRateLimit :: "env \<Rightarrow> rateLimitOptions \<Rightarrow> gstate \<Rightarrow> bool \<times> gstate" where
  "checkRateLimit e ropts st =
     (case map_of (rateLimitStore st) (limiterKey ropts) of
        None \<Rightarrow>
          (True, st\<lparr>rateLimitStore :=
                      (limiterKey ropts, 1, now e + windowMs ropts) # rateLimitStore st\<rparr>)
      | Some (count, resetTime) \<Rightarrow>
          if resetTime < now e then
            (True, st\<lparr>rateLimitStore :=
                        (limiterKey ropts, 1, now e + windowMs ropts) # rateLimitStore st\<rparr>)
          else if maxRequests ropts \<le> count then (False, st)
          else (True, st\<lparr>rateLimitStore :=
                            (limiterKey ropts, count + 1, resetTime) # rateLimitStore st\<rparr>))"

text \<open>
  \<open>logAudit(createAuditEvent(action, id, success))\<close>: the event carries the first 16 hex
  characters of the SHA-256 of the identifier; the logger of the host may raise.
\<close>

definition logAudit :: "env \<Rightarrow> string \<Rightarrow> string \<Rightarrow> bool \<Rightarrow> error + unit" where
  "logAudit e action ident success =
     fromLibrary
       (auditLogger e action (substring0 (toHex (createHash e ''sha256'' (utf8 ident))) 16)
          success)"

definition embedExpiryData :: "env \<Rightarrow> int \<Rightarrow> string" where
  "embedExpiryData e t = numberToString 36 (now e + t * 1000)"

definition embedGeoRegion :: "string \<Rightarrow> string" where
  "embedGeoRegion region =
     substring0 (filter (\<lambda>c. c \<noteq> CHR ''='') (base64 (utf8 region))) 8"

definition embedDeviceId :: "env \<Rightarrow> string \<Rightarrow> string" where
  "embedDeviceId e dev = substring0 (toHex (createHash e ''sha256'' (utf8 dev))) 12"

definition verifyDeviceId :: "env \<Rightarrow> string \<Rightarrow> string \<Rightarrow> error + bool" where
  "verifyDeviceId e embedded dev =
     (let expected = embedDeviceId e dev
      in if length (utf8 embedded) \<noteq> length (utf8 expected) then Inl RangeError
         else Inr (utf8 embedded = utf8 expected))"

definition embedHiddenData :: "string \<Rightarrow> string \<Rightarrow> string" where
  "embedHiddenData ident hidden =
     (let encoded = filter (\<lambda>c. c \<noteq> CHR ''='') (base64 (utf8 hidden));
          marker = substring0 encoded 8;
          third = int (length ident) div 3;
          twoThird = (int (length ident) * 2) div 3
      in slice ident 0 third @ substring0 marker 4 @ slice ident third twoThird
         @ take 4 (drop 4 marker) @ sliceFrom ident twoThird)"

text \<open>
  \<open>getQuantumRandomBytes\<close>: for the provider \<open>local\<close> two draws are combined bytewise by
  exclusive or, for any other provider it is one draw.
\<close>

definition getQuantumRandomBytes ::
  "env \<Rightarrow> int \<Rightarrow> string \<Rightarrow> gstate \<Rightarrow> error + buffer \<times> gstate" where
  "getQuantumRandomBytes e n provider st =
     (if provider = ''local'' then
        bindE (generateRandomBytes e n st)
          (\<lambda>(random1, st1). bindE (generateRandomBytes e n st1)
             (\<lambda>(random2, st2). Inr (map (\<lambda>(a, b). xor a b) (zip random1 random2), st2)))
      else generateRandomBytes e n st)"

section \<open>The generator\<close>

definition generateRandomId ::
  "env \<Rightarrow> int \<Rightarrow> string \<Rightarrow> bool \<Rightarrow> bool \<Rightarrow> gstate \<Rightarrow> error + string \<times> gstate" where
  "generateRandomId e len charset enhance reseedFlag st =
     bindE (generateRandomBytes e (len * 2) st)
       (\<lambda>(randomBytes, st1).
          bindE (if enhance then
                   bindE (generateRandomBytes e (len * 2) st1)
                     (\<lambda>(x1, s1). bindE (generateRandomBytes e (len * 2) s1)
                        (\<lambda>(x2, s2). bindE (generateRandomBytes e (len * 2) s2)
                           (\<lambda>(x3, s3). Inr (randomBytes @ x1 @ x2 @ x3, s3))))
                 else Inr (randomBytes, st1))
            (\<lambda>(randomBytes, st2).
               bindE (if reseedFlag then
                        bindE (generateRandomBytes e 32 st2)
                          (\<lambda>(more, s). Inr (randomBytes @ more, s))
                      else Inr (randomBytes, st2))
                 (\<lambda>(randomBytes, st3). bufferToBase e randomBytes charset len st3)))"

definition generateHashId ::
  "env \<Rightarrow> int \<Rightarrow> string \<Rightarrow> algorithm \<Rightarrow> string \<Rightarrow> bool \<Rightarrow> gstate \<Rightarrow> error + string \<times> gstate"
  where
  "generateHashId e len charset a embedData dbl st =
     bindE (generateRandomBytes e 64 st)
       (\<lambda>(randomBytes, st1).
          let input = toHex randomBytes @ embedData;
              hash = hashData e (utf8 input) a;
              hash = (if dbl then hashData e hash a else hash)
          in bufferToBase e hash charset len st1)"

definition derivedKeyOf :: "env \<Rightarrow> string \<Rightarrow> string \<Rightarrow> string \<Rightarrow> algorithm \<Rightarrow> error + string"
  where
  "derivedKeyOf e sec slt pep a =
     (if pep \<noteq> [] then bindE (deriveKey e sec slt pep a) (\<lambda>k. Inr (toHex k)) else Inr sec)"

definition generateHmacId ::
  "env \<Rightarrow> int \<Rightarrow> string \<Rightarrow> string \<Rightarrow> string \<Rightarrow> string \<Rightarrow> algorithm \<Rightarrow> string \<Rightarrow> gstate
   \<Rightarrow> error + string \<times> gstate" where
  "generateHmacId e len charset sec slt pep a embedData st =
     bindE (derivedKeyOf e sec slt pep a)
       (\<lambda>derivedKey. bindE (generateRandomBytes e 64 st)
          (\<lambda>(randomBytes, st1).
             let d = toHex randomBytes @ slt @ embedData
             in bindE (hmacSign e (utf8 d) derivedKey a)
                  (\<lambda>hmac. bufferToBase e hmac charset len st1)))"

definition generateHybridId ::
  "env \<Rightarrow> int \<Rightarrow> string \<Rightarrow> algorithm \<Rightarrow> string \<Rightarrow> string \<Rightarrow> string \<Rightarrow> string \<Rightarrow> gstate
   \<Rightarrow> error + string \<times> gstate" where
  "generateHybridId e len charset a sec slt pep embedData st =
     (let halfLength = (len + 1) div 2
      in bindE (generateRandomId e halfLength charset False False st)
           (\<lambda>(randomPart, st1).
              bindE (if sec \<noteq> []
                       then generateHmacId e (len - halfLength) charset sec slt pep a embedData st1
                     else generateHashId e (len - halfLength) charset a embedData False st1)
                (\<lambda>(hashPart, st2). Inr (randomPart @ hashPart, st2))))"

definition generateHmacHashId ::
  "env \<Rightarrow> int \<Rightarrow> string \<Rightarrow> algorithm \<Rightarrow> string \<Rightarrow> string \<Rightarrow> string \<Rightarrow> string \<Rightarrow> bool
   \<Rightarrow> gstate \<Rightarrow> error + string \<times> gstate" where
  "generateHmacHashId e len charset a sec slt pep embedData dbl st =
     bindE (generateRandomBytes e 64 st)
       (\<lambda>(randomBytes, st1).
          let randomData = toHex randomBytes @ embedData;
              hash = hashData e (utf8 randomData) a;
              hash = (if dbl then hashData e hash a else hash)
          in bindE (derivedKeyOf e sec slt pep a)
               (\<lambda>derivedKey. bindE (hmacSign e hash derivedKey a)
                  (\<lambda>hmac. bufferToBase e hmac charset len st1)))"

definition generateMemoryHardId ::
  "env \<Rightarrow> int \<Rightarrow> string \<Rightarrow> string \<Rightarrow> string \<Rightarrow> bool \<Rightarrow> gstate \<Rightarrow> error + string \<times> gstate"
  where
  "generateMemoryHardId e len charset sec embedData hard st =
     bindE (generateRandomBytes e 64 st)
       (\<lambda>(randomBytes, st1).
          let input = toHex randomBytes @ embedData;
              iterations = (if hard then 100000 else 10000);
              derived = memoryHardDerive e input sec iterations
          in bufferToBase e derived charset len st1)"

definition generatePostQuantumId ::
  "env \<Rightarrow> int \<Rightarrow> string \<Rightarrow> algorithm \<Rightarrow> string \<Rightarrow> gstate \<Rightarrow> error + string \<times> gstate" where
  "generatePostQuantumId e len charset a embedData st =
     bindE (generateRandomBytes e 64 st)
       (\<lambda>(randomBytes, st1).
          let d = utf8 (toHex randomBytes @ embedData);
              signature = postQuantumSign e d a
          in bufferToBase e signature charset len st1)"

definition generateQuantumRandomId ::
  "env \<Rightarrow> int \<Rightarrow> string \<Rightarrow> string \<Rightarrow> string \<Rightarrow> gstate \<Rightarrow> error + string \<times> gstate" where
  "generateQuantumRandomId e len charset provider embedData st =
     bindE (getQuantumRandomBytes e (len * 2) provider st)
       (\<lambda>(qrngBytes, st1).
          let mixedData = utf8 (toHex qrngBytes @ embedData)
          in bufferToBase e mixedData charset len st1)"

text \<open>
  \<open>addChecksums\<close>: block \<open>i\<close> is the upper-cased first \<open>len\<close> hex characters of the HMAC
  (when a secret is given) or the hash of the identifier followed by the decimal \<open>i\<close>.
\<close>

definition checksumBlock ::
  "env \<Rightarrow> string \<Rightarrow> int \<Rightarrow> algorithm \<Rightarrow> string \<Rightarrow> nat \<Rightarrow> error + string" where
  "checksumBlock e ident len a sec i =
     (let checksumData = ident @ natToString 10 i
      in bindE (if sec \<noteq> [] then hmacSign e (utf8 checksumData) sec a
                else Inr (hashData e (utf8 checksumData) a))
           (\<lambda>checksumHash. Inr (toUpperCase (substring0 (toHex checksumHash) len))))"

fun mapE :: "('a \<Rightarrow> error + 'b) \<Rightarrow> 'a list \<Rightarrow> error + 'b list" where
  "mapE f [] = Inr []"
| "mapE f (x # xs) = bindE (f x) (\<lambda>y. bindE (mapE f xs) (\<lambda>ys. Inr (y # ys)))"

definition computeChecksums ::
  "env \<Rightarrow> string \<Rightarrow> int \<Rightarrow> int \<Rightarrow> algorithm \<Rightarrow> string \<Rightarrow> error + string list" where
  "computeChecksums e ident count len a sec =
     mapE (checksumBlock e ident len a sec) [0 ..< nat count]"

definition addChecksums ::
  "env \<Rightarrow> string \<Rightarrow> int \<Rightarrow> int \<Rightarrow> checksumPosition \<Rightarrow> algorithm \<Rightarrow> string \<Rightarrow> error + string"
  where
  "addChecksums e ident count len position a sec =
     bindE (computeChecksums e ident count len a sec)
       (\<lambda>checksums. Inr (insertChecksums ident checksums position))"

text \<open>
  \<open>insertSeparators\<close>. The loop advances by \<open>segmentLength\<close>; nothing in the source keeps
  the stride positive, so the loop is a partial function: \<open>None\<close> is a run that never ends.
\<close>

partial_function (option) segmentLoop ::
  "string \<Rightarrow> int \<Rightarrow> int \<Rightarrow> string list \<Rightarrow> string list option" where
  "segmentLoop ident segmentLength i segments =
     (if i < int (length ident)
        then segmentLoop ident segmentLength (i + segmentLength)
               (segments @ [slice ident i (i + segmentLength)])
      else Some segments)"

declare segmentLoop.simps [code]

definition insertSeparators :: "string \<Rightarrow> string \<Rightarrow> int \<Rightarrow> string option" where
  "insertSeparators ident sep segmentLength =
     map_option (\<lambda>segments. join segments sep) (segmentLoop ident segmentLength 0 [])"

text \<open>\<open>generateId\<close>, in the order of the source.\<close>

definition rateLimitCheck :: "env \<Rightarrow> options \<Rightarrow> gstate \<Rightarrow> error + gstate" where
  "rateLimitCheck e opts st =
     (case rateLimit (security opts) of
        None \<Rightarrow> Inr st
      | Some ropts \<Rightarrow>
          (let (allowed, st1) = checkRateLimit e ropts st
           in if \<not> allowed then
                (if audit (security opts)
                   then bindE (logAudit e ''generate'' ''rate-limited'' False)
                          (\<lambda>u. Inl RateLimitExceeded)
                 else Inl RateLimitExceeded)
              else Inr st1))"

definition ttlGiven :: "options \<Rightarrow> bool" where
  "ttlGiven opts = (case ttl (security opts) of None \<Rightarrow> False | Some t \<Rightarrow> t \<noteq> 0)"

definition validateRequirements :: "options \<Rightarrow> error + unit" where
  "validateRequirements opts =
     (if (mode opts = Hmac \<or> mode opts = HmacHash \<or> mode opts = MemoryHard)
         \<and> secret opts = []
        then Inl (SecretRequiredForMode (mode opts))
      else if embedExpiry (security opts) \<and> \<not> ttlGiven opts then Inl TtlRequired
      else if deviceBinding (security opts) \<and> deviceId (security opts) = []
        then Inl DeviceIdRequired
      else Inr ())"

definition metadataLength :: "options \<Rightarrow> int" where
  "metadataLength opts =
     (if checksum opts then checksumCount opts * checksumLength opts else 0)
     + (if embedExpiry (security opts) then 10 else 0)
     + (if embedGeo (security opts) then 8 else 0)
     + (if deviceBinding (security opts) then 12 else 0)"

definition coreIdLength :: "options \<Rightarrow> int" where
  "coreIdLength opts = max 8 (lengthOpt opts - metadataLength opts)"

definition buildEmbedData :: "env \<Rightarrow> options \<Rightarrow> gstate \<Rightarrow> string \<times> gstate" where
  "buildEmbedData e opts st =
     (let sec = security opts;
          d1 = (if timestampEmbed sec then generateTimestamp e else []);
          (d2, st1) =
            (if counterEmbed sec
               then (let (c, s) = getCounter st in (d1 @ natToString 36 c, s))
             else (d1, st));
          d3 = (if embedExpiry sec \<and> ttlGiven opts
                  then d2 @ embedExpiryData e (the (ttl sec)) else d2);
          d4 = (if embedGeo sec \<and> geoRegion sec \<noteq> []
                  then d3 @ embedGeoRegion (geoRegion sec) else d3);
          d5 = (if deviceBinding sec \<and> deviceId sec \<noteq> []
                  then d4 @ embedDeviceId e (deviceId sec) else d4)
      in (d5, st1))"

definition generateCore ::
  "env \<Rightarrow> options \<Rightarrow> string \<Rightarrow> int \<Rightarrow> string \<Rightarrow> gstate \<Rightarrow> error + string \<times> gstate" where
  "generateCore e opts charset len embedData st =
     (let sec = security opts
      in if algorithm opts = KYBER768 \<or> algorithm opts = DILITHIUM3
           then generatePostQuantumId e len charset (algorithm opts) embedData st
         else if useQuantumRNG sec
           then generateQuantumRandomId e len charset (qrngProvider sec) embedData st
         else
           (case mode opts of
              Random \<Rightarrow> generateRandomId e len charset (enhanceEntropy sec) (reseed sec) st
            | Hash \<Rightarrow>
                generateHashId e len charset (algorithm opts) embedData (doubleHash sec) st
            | Hmac \<Rightarrow>
                generateHmacId e len charset (secret opts) (salt opts) (pepper opts)
                  (algorithm opts) embedData st
            | Hybrid \<Rightarrow>
                generateHybridId e len charset (algorithm opts) (secret opts) (salt opts)
                  (pepper opts) embedData st
            | HmacHash \<Rightarrow>
                generateHmacHashId e len charset (algorithm opts) (secret opts) (salt opts)
                  (pepper opts) embedData (doubleHash sec) st
            | MemoryHard \<Rightarrow>
                generateMemoryHardId e len charset (secret opts) embedData (memoryHard sec) st))"

definition withChecksums :: "env \<Rightarrow> options \<Rightarrow> string \<Rightarrow> error + string" where
  "withChecksums e opts idCore =
     (if checksum opts
        then addChecksums e idCore (checksumCount opts) (checksumLength opts)
               (checksumPosition opts) (algorithm opts) (secret opts)
      else Inr idCore)"

text \<open>
  The collision loop: while the candidate is in the collision store and fewer than ten
  attempts were made, a new random core is drawn. Ten attempts are an error even when
  the tenth candidate is new.
\<close>

function collisionLoop ::
  "env \<Rightarrow> options \<Rightarrow> string \<Rightarrow> int \<Rightarrow> nat \<Rightarrow> string \<Rightarrow> gstate
   \<Rightarrow> error + string \<times> nat \<times> gstate" where
  "collisionLoop e opts charset len attempts finalId st =
     (if finalId \<in> set (collisionStore st) \<and> attempts < 10 then
        (case generateRandomId e len charset (enhanceEntropy (security opts))
                (reseed (security opts)) (snd (getCounter st)) of
           Inl err \<Rightarrow> Inl err
         | Inr (idCore, st2) \<Rightarrow>
             (case withChecksums e opts idCore of
                Inl err \<Rightarrow> Inl err
              | Inr finalId' \<Rightarrow> collisionLoop e opts charset len (attempts + 1) finalId' st2))
      else Inr (finalId, attempts, st))"
  by pat_completeness auto
termination
  by (relation "measure (\<lambda>(e, opts, charset, len, attempts, finalId, st). 10 - attempts)") auto

declare collisionLoop.simps [simp del]

definition collisionCheck ::
  "env \<Rightarrow> options \<Rightarrow> string \<Rightarrow> int \<Rightarrow> string \<Rightarrow> gstate \<Rightarrow> error + string \<times> gstate" where
  "collisionCheck e opts charset len finalId st =
     (if collisionDetection (security opts) then
        bindE (collisionLoop e opts charset len 0 finalId st)
          (\<lambda>(finalId', attempts, st1).
             if 10 \<le> attempts then Inl MaxAttemptsExceeded
             else Inr (finalId', st1\<lparr>collisionStore := finalId' # collisionStore st1\<rparr>))
      else Inr (finalId, st))"

text \<open>The identifier before separators, prefix and suffix are applied.\<close>

definition generateContent :: "env \<Rightarrow> options \<Rightarrow> gstate \<Rightarrow> error + string \<times> gstate" where
  "generateContent e opts st =
     bindE (rateLimitCheck e opts st)
       (\<lambda>st1. bindE (validateRequirements opts)
          (\<lambda>u. let sec = security opts;
                    charset = getCharset (avoidAmbiguousChars sec) (enforceCharset sec);
                    (embedData, st2) = buildEmbedData e opts st1
                in bindE (generateCore e opts charset (coreIdLength opts) embedData st2)
                     (\<lambda>(idCore, st3).
                        bindE (withChecksums e opts (applyCase idCore (caseOpt opts)))
                          (\<lambda>finalId.
                             bindE (collisionCheck e opts charset (coreIdLength opts) finalId st3)
                               (\<lambda>(finalId, st4).
                                  Inr (if steganography sec \<and> hiddenData sec \<noteq> []
                                         then embedHiddenData finalId (hiddenData sec)
                                       else finalId, st4))))))"

definition wrapId :: "options \<Rightarrow> string \<Rightarrow> string" where
  "wrapId opts finalId =
     (let withPrefix =
            (if prefix opts \<noteq> [] then prefix opts @ separator opts @ finalId else finalId)
      in if suffix opts \<noteq> [] then withPrefix @ separator opts @ suffix opts else withPrefix)"

text \<open>
  \<open>generateId\<close>: \<open>None\<close> when the call never returns, \<open>Some (Inl error)\<close> when it raises,
  \<open>Some (Inr (identifier, state))\<close> when it returns an identifier.
\<close>

definition generateId :: "env \<Rightarrow> options \<Rightarrow> gstate \<Rightarrow> (error + string \<times> gstate) option" where
  "generateId e opts st =
     (case generateContent e opts st of
        Inl err \<Rightarrow> Some (Inl err)
      | Inr (content, st1) \<Rightarrow>
          (case (if separator opts \<noteq> []
                   then insertSeparators content (separator opts) (separatorLength opts)
                 else Some content) of
             None \<Rightarrow> None
           | Some separated \<Rightarrow>
               (let finalId = wrapId opts separated
                in if audit (security opts)
                     then Some (bindE (logAudit e ''generate'' finalId True)
                                  (\<lambda>u. Inr (finalId, st1)))
                   else Some (Inr (finalId, st1)))))"

section \<open>Verification (helpers)\<close>

text \<open>
  A \<open>try { ... } catch { return false }\<close> block: the body is a computation that may
  raise, and the block turns every error into \<open>False\<close>.
\<close>

definition catchFalse :: "error + bool \<Rightarrow> bool" where
  "catchFalse r = (case r of Inl err \<Rightarrow> False | Inr b \<Rightarrow> b)"

fun checkBlocks ::
  "env \<Rightarrow> string \<Rightarrow> options \<Rightarrow> string list \<Rightarrow> nat list \<Rightarrow> error + bool" where
  "checkBlocks e coreId opts extracted [] = Inr True"
| "checkBlocks e coreId opts extracted (i # rest) =
     bindE (checksumBlock e coreId (checksumLength opts) (algorithm opts) (secret opts) i)
       (\<lambda>expectedChecksum.
          bindE (timingSafeEqual (toUpperCase (extracted ! i)) expectedChecksum)
            (\<lambda>same. if \<not> same then Inr False
                     else checkBlocks e coreId opts extracted rest))"

definition verifyChecksumBody :: "env \<Rightarrow> string \<Rightarrow> options \<Rightarrow> error + bool" where
  "verifyChecksumBody e ident opts =
     (let coreId = extractCoreId ident opts;
          extractedChecksums = extractChecksums ident opts
      in if int (length extractedChecksums) \<noteq> checksumCount opts then Inr False
         else checkBlocks e coreId opts extractedChecksums [0 ..< nat (checksumCount opts)])"

definition verifyChecksum :: "env \<Rightarrow> string \<Rightarrow> options \<Rightarrow> error + bool" where
  "verifyChecksum e ident opts =
     (if \<not> checksum opts then Inr True
      else Inr (catchFalse (verifyChecksumBody e ident opts)))"

definition verifyHmacBody :: "env \<Rightarrow> string \<Rightarrow> string \<Rightarrow> options \<Rightarrow> error + bool" where
  "verifyHmacBody e ident sec opts =
     (let coreId = extractCoreId ident opts
      in bindE (derivedKeyOf e sec (salt opts) (pepper opts) (algorithm opts))
           (\<lambda>derivedKey.
              bindE (hmacSign e (utf8 coreId) derivedKey (algorithm opts))
                (\<lambda>h. let computedHmac = toHex h;
                          idHex = toHex (utf8 coreId);
                          n = int (min (length computedHmac) (length idHex))
                      in timingSafeEqual (substring0 computedHmac n) (substring0 idHex n))))"

definition verifyHmac :: "env \<Rightarrow> string \<Rightarrow> string \<Rightarrow> options \<Rightarrow> error + bool" where
  "verifyHmac e ident sec opts =
     (if sec = [] then Inl SecretRequiredForHmac
      else Inr (catchFalse (verifyHmacBody e ident sec opts)))"

text \<open>
  The regular expressions of \<open>verifyId\<close> are runs of one character class: the match is
  the leftmost position with at least \<open>lo\<close> characters of the class, extended greedily to
  at most \<open>hi\<close> characters.
\<close>

fun regexRun :: "(char \<Rightarrow> bool) \<Rightarrow> nat \<Rightarrow> nat \<Rightarrow> string \<Rightarrow> string option" where
  "regexRun P lo hi [] = (if lo = 0 then Some [] else None)"
| "regexRun P lo hi (c # cs) =
     (let m = takeWhile P (take hi (c # cs))
      in if lo \<le> length m then Some m else regexRun P lo hi cs)"

definition isAlnumChar :: "char \<Rightarrow> bool" where
  "isAlnumChar c =
     (let n = of_char c :: nat
      in (48 \<le> n \<and> n \<le> 57) \<or> (65 \<le> n \<and> n \<le> 90) \<or> (97 \<le> n \<and> n \<le> 122))"

definition isHexChar :: "char \<Rightarrow> bool" where
  "isHexChar c =
     (let n = of_char c :: nat
      in (48 \<le> n \<and> n \<le> 57) \<or> (65 \<le> n \<and> n \<le> 70) \<or> (97 \<le> n \<and> n \<le> 102))"

definition auditThen :: "env \<Rightarrow> options \<Rightarrow> string \<Rightarrow> bool \<Rightarrow> error + bool" where
  "auditThen e opts ident success =
     (if audit (security opts)
        then bindE (logAudit e ''verify'' ident success) (\<lambda>u. Inr success)
      else Inr success)"

definition verifySingleMethod ::
  "env \<Rightarrow> string \<Rightarrow> verificationMethod \<Rightarrow> options \<Rightarrow> error + bool" where
  "verifySingleMethod e ident method opts =
     (let sec = security opts
      in case method of
           ViaChecksum \<Rightarrow> if checksum opts then verifyChecksum e ident opts else Inr True
         | ViaHmac \<Rightarrow>
             if secret opts \<noteq> [] then verifyHmac e ident (secret opts) opts else Inr True
         | ViaTimestamp \<Rightarrow> Inr True
         | ViaSignature \<Rightarrow> Inr True
         | ViaExpiry \<Rightarrow>
             if embedExpiry sec then
               (case regexRun isAlnumChar 8 12 (extractCoreId ident opts) of
                  Some m \<Rightarrow> Inr (\<not> isExpired e m)
                | None \<Rightarrow> Inr False)
             else Inr True
         | ViaDevice \<Rightarrow>
             if deviceBinding sec \<and> deviceId sec \<noteq> [] then
               (case regexRun isHexChar 12 12 (extractCoreId ident opts) of
                  Some m \<Rightarrow> verifyDeviceId e m (deviceId sec)
                | None \<Rightarrow> Inr False)
             else Inr True
         | ViaGeo \<Rightarrow>
             if embedGeo sec \<and> geoRegion sec \<noteq> [] then
               (case regexRun isAlnumChar 8 8 (extractCoreId ident opts) of
                  Some m \<Rightarrow> Inr (extractGeoRegion e m = geoRegion sec)
                | None \<Rightarrow> Inr True)
             else Inr True)"

fun multiFactor ::
  "env \<Rightarrow> string \<Rightarrow> options \<Rightarrow> verificationMethod list \<Rightarrow> error + bool" where
  "multiFactor e ident opts [] = auditThen e opts ident True"
| "multiFactor e ident opts (method # rest) =
     bindE (verifySingleMethod e ident method opts)
       (\<lambda>ok. if \<not> ok then auditThen e opts ident False
              else multiFactor e ident opts rest)"

definition expiryCheck :: "env \<Rightarrow> string \<Rightarrow> options \<Rightarrow> error + bool" where
  "expiryCheck e ident opts =
     (if embedExpiry (security opts) then
        (case regexRun isAlnumChar 8 12 (extractCoreId ident opts) of
           Some m \<Rightarrow> if isExpired e m then auditThen e opts ident False else Inr True
         | None \<Rightarrow> Inr True)
      else Inr True)"

definition deviceCheck :: "env \<Rightarrow> string \<Rightarrow> options \<Rightarrow> error + bool" where
  "deviceCheck e ident opts =
     (if deviceBinding (security opts) \<and> deviceId (security opts) \<noteq> [] then
        (case regexRun isHexChar 12 12 (extractCoreId ident opts) of
           None \<Rightarrow> auditThen e opts ident False
         | Some m \<Rightarrow>
             bindE (verifyDeviceId e m (deviceId (security opts)))
               (\<lambda>ok. if \<not> ok then auditThen e opts ident False else Inr True))
      else Inr True)"

definition standardVerification :: "env \<Rightarrow> string \<Rightarrow> options \<Rightarrow> error + bool" where
  "standardVerification e ident opts =
     bindE (if checksum opts then verifyChecksum e ident opts else Inr True)
       (\<lambda>ok. if \<not> ok then Inr False else
          bindE (if secret opts \<noteq> [] \<and> (mode opts = Hmac \<or> mode opts = HmacHash)
                   then verifyHmac e ident (secret opts) opts else Inr True)
            (\<lambda>ok. if \<not> ok then Inr False else
               bindE (expiryCheck e ident opts)
                 (\<lambda>ok. if \<not> ok then Inr False else
                    bindE (deviceCheck e ident opts)
                      (\<lambda>ok. if \<not> ok then Inr False
                             else if originalId opts \<noteq> []
                               then timingSafeEqual ident (originalId opts)
                             else auditThen e opts ident True))))"

definition verifyIdBody :: "env \<Rightarrow> string \<Rightarrow> options \<Rightarrow> error + bool" where
  "verifyIdBody e ident opts =
     bindE (if checkRevocation (security opts) then fromLibrary (revocationList e ident)
            else Inr False)
       (\<lambda>revoked.
          if revoked then auditThen e opts ident False
          else if verifyMultiFactor (security opts) \<noteq> []
            then multiFactor e ident opts (verifyMultiFactor (security opts))
          else standardVerification e ident opts)"

definition verifyId :: "env \<Rightarrow> string \<Rightarrow> options \<Rightarrow> error + bool" where
  "verifyId e ident opts = Inr (catchFalse (verifyIdBody e ident opts))"

section \<open>A concrete environment\<close>

text \<open>
  The digest sizes of the algorithms in bytes, as \<open>hashData\<close> and \<open>hmacSign\<close> request
  them, and the statement that the primitives of an environment respect them.
\<close>

definition digestLength :: "string \<Rightarrow> nat" where
  "digestLength name =
     (if name = ''sha256'' \<or> name = ''sha3-256'' then 32 else 64)"

definition hashNames :: "string list" where
  "hashNames = [''sha256'', ''sha512'', ''sha3-256'', ''sha3-512'', ''blake2b512'', ''shake256'']"

definition standardDigests :: "env \<Rightarrow> bool" where
  "standardDigests e =
     ((\<forall>name d. name \<in> set hashNames \<longrightarrow> length (createHash e name d) = digestLength name)
      \<and> (\<forall>name key d h. createHmac e name key d = Some h \<longrightarrow> 32 \<le> length h))"

text \<open>
  An environment to run the model on: a fixed clock, a random source that delivers
  1, 2, 3 and so on, digests of the standard sizes that repeat the byte sum of their
  input, an HMAC that knows the digests of the platform, an empty revocation list and a
  logger that returns.
\<close>

definition demoDigest :: "nat \<Rightarrow> buffer \<Rightarrow> buffer" where
  "demoDigest n d = replicate n (word_of_nat (sum_list (map unat d)))"

definition demoEnv :: env where
  "demoEnv =
     \<lparr> now = 1700000000000,
       entropy = (\<lambda>k. k + 1),
       createHash = (\<lambda>name d. demoDigest (digestLength name) d),
       createHmac = (\<lambda>name key d.
          if name \<in> set hashNames then Some (demoDigest (digestLength name) (utf8 key @ d))
          else None),
       hkdfSync = (\<lambda>name ikm slt info n.
          if name = ''sha256'' \<or> name = ''sha512''
            then Some (demoDigest n (utf8 (ikm @ slt @ info))) else None),
       pbkdf2Sync = (\<lambda>input slt iterations n name. demoDigest n (utf8 (input @ slt))),
       postQuantumSign = (\<lambda>d a. demoDigest 64 d),
       revocationList = (\<lambda>ident. Some False),
       auditLogger = (\<lambda>action idHash success. Some ()),
       isExpired = (\<lambda>expiryStr. False),
       extractGeoRegion = (\<lambda>encoded. encoded) \<rparr>"

definition initialState :: gstate where
  "initialState =
     \<lparr> globalCounter = 0, drawn = 0, rateLimitStore = [], collisionStore = [] \<rparr>"

section \<open>The encoding as the specification words it\<close>

text \<open>
  The specification describes \<open>encode(bytes, alphabet, targetLength)\<close>: the bytes are a
  big unsigned integer, the characters are its remainders modulo the size of the alphabet,
  the most significant one first, at most \<open>targetLength\<close> of them (the rightmost ones),
  and the missing characters on the left are freshly drawn random indices into the
  alphabet. \<open>specRemainders\<close> lists the remainders, least significant first;
  \<open>specPadding\<close> lists the indices of the padding from left to right, where the \<open>j\<close>-th
  draw after the first \<open>d\<close> ones is \<open>entropy (d + j)\<close> and each new character goes in front.
\<close>

fun specRemainders :: "nat \<Rightarrow> nat \<Rightarrow> nat \<Rightarrow> nat list" where
  "specRemainders base 0 num = []"
| "specRemainders base (Suc k) num =
     (if num = 0 then [] else num mod base # specRemainders base k (num div base))"

definition specPadding :: "env \<Rightarrow> nat \<Rightarrow> nat \<Rightarrow> nat \<Rightarrow> nat list" where
  "specPadding e base d k = rev (map (\<lambda>j. entropy e (d + j) mod base) [0 ..< k])"

definition specEncode :: "env \<Rightarrow> nat \<Rightarrow> string \<Rightarrow> nat \<Rightarrow> nat \<Rightarrow> string" where
  "specEncode e num charset target d =
     (let digits = rev (specRemainders (length charset) target num)
      in map (\<lambda>i. charset ! i)
           (specPadding e (length charset) d (target - length digits) @ digits))"

section \<open>Configurations of the test suite and of the specification\<close>

text \<open>
  \<open>{length: 20, checksum: true, checksumCount: 2, checksumLength: 2,
  checksumPosition: [5, 10]}\<close>, the configuration of the test "Two checksums".
\<close>

definition twoChecksumsAtPositions :: options where
  "twoChecksumsAtPositions =
     defaultOptions\<lparr>lengthOpt := 20, checksum := True, checksumCount := 2,
       checksumLength := 2, checksumPosition := Positions [5, 10]\<rparr>"

text \<open>\<open>{prefix: 'USER', suffix: 'END'}\<close>.\<close>

definition framedOptions :: options where
  "framedOptions = defaultOptions\<lparr>prefix := ''USER'', suffix := ''END''\<rparr>"

text \<open>
  A checksum keyed with a secret under the algorithm \<open>kyber768\<close>, for which \<open>hmacSign\<close>
  asks the platform for a digest it does not have; and options with an \<open>originalId\<close>.
\<close>

definition unknownDigestOptions :: options where
  "unknownDigestOptions =
     defaultOptions\<lparr>checksum := True, secret := ''k'', algorithm := KYBER768\<rparr>"

definition originalIdOptions :: options where
  "originalIdOptions = defaultOptions\<lparr>originalId := ''e''\<rparr>"




text \<open>The result of a computation is the error of a mode that lacks its secret.\<close>

definition modeError :: "error + 'a \<Rightarrow> bool" where
  "modeError r = (\<exists>m. r = Inl (SecretRequiredForMode m))"

text \<open>A string of the requested length over an alphabet.\<close>

definition drawnFrom :: "string \<Rightarrow> int \<Rightarrow> string \<Rightarrow> bool" where
  "drawnFrom charset len r = (length r = nat len \<and> set r \<subseteq> set charset)"

text \<open>The characters of \<open>toString('hex')\<close> and of its upper-cased form.\<close>

definition lowerHexDigits :: string where
  "lowerHexDigits = ''0123456789abcdef''"

definition upperHexDigits :: string where
  "upperHexDigits = ''0123456789ABCDEF''"

text \<open>
  The characters a core can consist of: the alphabet of the configuration and its images
  under the case transforms.
\<close>

definition coreAlphabet :: "options \<Rightarrow> char set" where
  "coreAlphabet opts =
     (let cs = set (getCharset (avoidAmbiguousChars (security opts))
                      (enforceCharset (security opts)))
      in cs \<union> upperChar ` cs \<union> lowerChar ` cs)"

text \<open>
  \<open>{length: 20, checksum: true, checksumCount: 2, checksumLength: 2}\<close> and
  \<open>{length: 10, checksum: true, checksumCount: 2, checksumLength: 2,
  security: {timestampEmbed: true, embedExpiry: true, ttl: 3600}}\<close>, the two scenarios of
  the specification.
\<close>

definition lengthInvariantOptions :: options where
  "lengthInvariantOptions =
     defaultOptions\<lparr>lengthOpt := 20, checksum := True, checksumCount := 2, checksumLength := 2\<rparr>"

definition insufficientLengthOptions :: options where
  "insufficientLengthOptions =
     defaultOptions\<lparr>lengthOpt := 10, checksum := True, checksumCount := 2, checksumLength := 2,
       security := defaultSecurity\<lparr>timestampEmbed := True, embedExpiry := True,
                                   ttl := Some 3600\<rparr>\<rparr>"

section \<open>Properties\<close>

subsection \<open>Strings\<close>

lemma startsWith_append: "startsWith s (p @ q) \<Longrightarrow> startsWith s p"
  unfolding startsWith_def
  by (metis append_eq_conv_conj append_take_drop_id take_take min.absorb_iff2 length_append
      le_add1)

lemma endsWith_append: "endsWith s (q @ p) \<Longrightarrow> endsWith s p"
proof -
  assume h: "endsWith s (q @ p)"
  then have len: "length q + length p \<le> length s"
    and eq: "drop (length s - (length q + length p)) s = q @ p"
    by (simp_all add: endsWith_def)
  have "drop (length s - length p) s
          = drop (length q) (drop (length s - (length q + length p)) s)"
    using len by simp
  also have "\<dots> = p" using eq by simp
  finally show ?thesis using len by (simp add: endsWith_def)
qed

lemma slice_all: "int (length s) \<le> n \<Longrightarrow> slice s 0 n = s"
  by (simp add: slice_def relIndex_def)

subsection \<open>Explicit positions: insertion against extraction\<close>

text \<open>
  C1. The claim: extracting the checksums from the result of inserting uniform blocks at
  ascending explicit positions returns the blocks, because extraction uses the cumulative
  offsets of insertion. The code of \<open>extractChecksums\<close> reads at the declared positions
  instead: two blocks \<open>AA\<close> and \<open>BB\<close> inserted at the positions 5 and 10 of a core of 16
  characters land at 5 and 12, and the extraction returns \<open>AA\<close> and the two core
  characters found at position 10.
\<close>

theorem extractChecksums_reads_declared_positions:
  "insertChecksums ''abcdefghijklmnop'' [''AA'', ''BB''] (Positions [5, 10])
     = ''abcdeAAfghijBBklmnop''
   \<and> extractChecksums ''abcdeAAfghijBBklmnop'' twoChecksumsAtPositions = [''AA'', ''ij'']"
  by code_simp

subsection \<open>Framing that is not there\<close>

text \<open>
  C10. \<open>extractCoreId\<close> has no error value: no operation of its source can raise.
  When the configured prefix is not at the start of the string, the prefix step returns
  the string unchanged, and so does the suffix step when the suffix is not at the end;
  with both absent the result is what the separator and checksum steps make of the
  whole string.
\<close>

theorem extractCoreId_tolerates_missing_framing:
  "(\<not> startsWith ident (prefix opts) \<longrightarrow> removePrefix opts ident = ident)
   \<and> (\<not> endsWith ident (suffix opts) \<longrightarrow> removeSuffix opts ident = ident)
   \<and> (\<not> startsWith ident (prefix opts) \<and> \<not> endsWith ident (suffix opts)
        \<longrightarrow> extractCoreId ident opts = removeChecksums opts (removeSeparators opts ident))"
proof -
  have p: "\<not> startsWith x (prefix opts) \<Longrightarrow> removePrefix opts x = x" for x
    using startsWith_append [of x "prefix opts" "separator opts"]
    by (auto simp add: removePrefix_def Let_def)
  have s: "\<not> endsWith x (suffix opts) \<Longrightarrow> removeSuffix opts x = x" for x
    using endsWith_append [of x "separator opts" "suffix opts"]
    by (auto simp add: removeSuffix_def Let_def)
  show ?thesis using p s by (simp add: extractCoreId_def)
qed

theorem extractCoreId_tolerates_missing_framing_witness:
  "\<not> startsWith ''ABCDEFGH'' (prefix framedOptions)
   \<and> \<not> endsWith ''ABCDEFGH'' (suffix framedOptions)
   \<and> removePrefix framedOptions ''ABCDEFGH'' = ''ABCDEFGH''
   \<and> removeSuffix framedOptions ''ABCDEFGH'' = ''ABCDEFGH''
   \<and> extractCoreId ''ABCDEFGH'' framedOptions
       = removeChecksums framedOptions (removeSeparators framedOptions ''ABCDEFGH'')"
proof -
  have a: "\<not> startsWith ''ABCDEFGH'' (prefix framedOptions)" by code_simp
  have b: "\<not> endsWith ''ABCDEFGH'' (suffix framedOptions)" by code_simp
  from extractCoreId_tolerates_missing_framing [of "''ABCDEFGH''" framedOptions] a b
  show ?thesis by blast
qed

subsection \<open>Verification without a feature to verify\<close>

text \<open>
  C9. \<open>verifyChecksum\<close> returns true for every string when the options do not enable
  the checksum, and \<open>verifyId\<close> returns true for every string under the empty options.
\<close>

theorem verification_vacuous:
  "(\<not> checksum opts \<longrightarrow> verifyChecksum e ident opts = Inr True)
   \<and> verifyId e ident defaultOptions = Inr True"
  by (simp add: verifyChecksum_def verifyId_def verifyIdBody_def standardVerification_def
      expiryCheck_def deviceCheck_def auditThen_def bindE_def catchFalse_def
      defaultOptions_def defaultSecurity_def)

theorem verification_vacuous_witness:
  "\<not> checksum framedOptions
   \<and> verifyChecksum demoEnv ''not-an-identifier'' framedOptions = Inr True
   \<and> verifyId demoEnv ''not-an-identifier'' defaultOptions = Inr True"
proof -
  have a: "\<not> checksum framedOptions" by code_simp
  from verification_vacuous [of framedOptions demoEnv "''not-an-identifier''"] a
  show ?thesis by blast
qed

subsection \<open>Verification never raises, but for the guard of verifyHmac\<close>

text \<open>
  C4, the claim as stated: no verification function raises, whatever the string and the
  options, an empty secret included. \<open>verifyHmac\<close> checks the secret before its
  \<open>try\<close> block and raises when it is empty.
\<close>

theorem verifyHmac_raises_on_empty_secret:
  "verifyHmac demoEnv ''ABC'' [] defaultOptions = Inl SecretRequiredForHmac"
  by (simp add: verifyHmac_def)

text \<open>
  C4, amended. \<open>verifyChecksum\<close> and \<open>verifyId\<close> return a boolean for every string,
  every options value and every behaviour of the primitives, and so does \<open>verifyHmac\<close>
  for every non-empty secret; \<open>verifyHmac\<close> with an empty secret raises its
  secret-required error. Whenever the body of one of the \<open>try\<close> blocks raises, the
  function returns false.
\<close>

theorem verification_total:
  "(\<exists>b. verifyChecksum e ident opts = Inr b)
   \<and> (\<exists>b. verifyId e ident opts = Inr b)
   \<and> (sec \<noteq> [] \<longrightarrow> (\<exists>b. verifyHmac e ident sec opts = Inr b))
   \<and> (sec = [] \<longrightarrow> verifyHmac e ident sec opts = Inl SecretRequiredForHmac)
   \<and> (checksum opts \<and> verifyChecksumBody e ident opts = Inl err
        \<longrightarrow> verifyChecksum e ident opts = Inr False)
   \<and> (sec \<noteq> [] \<and> verifyHmacBody e ident sec opts = Inl err
        \<longrightarrow> verifyHmac e ident sec opts = Inr False)
   \<and> (verifyIdBody e ident opts = Inl err \<longrightarrow> verifyId e ident opts = Inr False)"
  by (auto simp add: verifyChecksum_def verifyId_def verifyHmac_def catchFalse_def)

theorem verification_total_witness:
  "verifyChecksumBody demoEnv ''ABCDEFGHIJ'' unknownDigestOptions = Inl LibraryError
   \<and> verifyChecksum demoEnv ''ABCDEFGHIJ'' unknownDigestOptions = Inr False
   \<and> verifyHmacBody demoEnv ''ABCDEFGHIJ'' ''k'' unknownDigestOptions = Inl LibraryError
   \<and> verifyHmac demoEnv ''ABCDEFGHIJ'' ''k'' unknownDigestOptions = Inr False
   \<and> verifyIdBody demoEnv [CHR 0xE9] originalIdOptions = Inl RangeError
   \<and> verifyId demoEnv [CHR 0xE9] originalIdOptions = Inr False
   \<and> verifyHmac demoEnv [CHR 0xE9] [] originalIdOptions = Inl SecretRequiredForHmac"
proof -
  have c: "checksum unknownDigestOptions" by code_simp
  have k: "''k'' \<noteq> ([] :: string)" by simp
  have a: "verifyChecksumBody demoEnv ''ABCDEFGHIJ'' unknownDigestOptions = Inl LibraryError"
    by code_simp
  have b: "verifyHmacBody demoEnv ''ABCDEFGHIJ'' ''k'' unknownDigestOptions = Inl LibraryError"
    by code_simp
  have d: "verifyIdBody demoEnv [CHR 0xE9] originalIdOptions = Inl RangeError"
    by code_simp
  from verification_total [of demoEnv "''ABCDEFGHIJ''" unknownDigestOptions "''k''" LibraryError]
    verification_total [of demoEnv "[CHR 0xE9]" originalIdOptions "[]" RangeError]
    a b c d k
  show ?thesis by blast
qed

subsection \<open>bufferToBase\<close>

lemma specRemainders_zero [simp]: "specRemainders base k 0 = []"
  by (cases k) simp_all

lemma length_specRemainders: "length (specRemainders base k num) \<le> k"
  by (induction base k num rule: specRemainders.induct) auto

lemma specRemainders_bound:
  "0 < base \<Longrightarrow> i \<in> set (specRemainders base k num) \<Longrightarrow> i < base"
  by (induction base k num rule: specRemainders.induct) (auto split: if_splits)

lemma digitLoop_eq:
  "charset \<noteq> [] \<Longrightarrow>
   digitLoop charset len num result =
     Inr (map (\<lambda>i. charset ! i)
            (rev (specRemainders (length charset) (nat (len - int (length result))) num))
          @ result)"
proof (induction charset len num result rule: digitLoop.induct)
  case (1 charset len num result)
  show ?case
  proof (cases "0 < num \<and> int (length result) < len")
    case True
    then obtain k where k: "nat (len - int (length result)) = Suc k"
      by (metis Suc_pred' zero_less_nat_eq diff_gt_0_iff_gt)
    then have k': "nat (len - int (length (charset ! (num mod length charset) # result))) = k"
      by simp
    from True "1.prems" have
      "digitLoop charset len num result =
         digitLoop charset len (num div length charset)
           (charset ! (num mod length charset) # result)"
      by (subst digitLoop.simps) simp
    also have "\<dots> = Inr (map (\<lambda>i. charset ! i)
                     (rev (specRemainders (length charset) k (num div length charset)))
                   @ charset ! (num mod length charset) # result)"
      using "1.IH" True "1.prems" k' by simp
    finally show ?thesis using True k by simp
  next
    case False
    then have "num = 0 \<or> nat (len - int (length result)) = 0" by auto
    then have "specRemainders (length charset) (nat (len - int (length result))) num = []"
      by auto
    moreover from False have "digitLoop charset len num result = Inr result"
      by (subst digitLoop.simps) auto
    ultimately show ?thesis by simp
  qed
qed

lemma specPadding_Suc:
  "specPadding e base d (Suc k) = specPadding e base (Suc d) k @ [entropy e d mod base]"
proof -
  have "map (\<lambda>j. entropy e (d + j) mod base) [0 ..< Suc k]
        = (entropy e d mod base) # map (\<lambda>j. entropy e (Suc d + j) mod base) [0 ..< k]"
    by (simp add: upt_conv_Cons map_Suc_upt [symmetric] del: upt_Suc)
  then show ?thesis by (simp add: specPadding_def del: upt_Suc)
qed

lemma padLoop_eq:
  "charset \<noteq> [] \<Longrightarrow>
   padLoop e charset len result st =
     Inr (map (\<lambda>i. charset ! i)
            (specPadding e (length charset) (drawn st) (nat (len - int (length result))))
          @ result,
          st\<lparr>drawn := drawn st + nat (len - int (length result))\<rparr>)"
proof (induction e charset len result st rule: padLoop.induct)
  case (1 e charset len result st)
  show ?case
  proof (cases "int (length result) < len")
    case True
    then obtain k where k: "nat (len - int (length result)) = Suc k"
      by (metis Suc_pred' zero_less_nat_eq diff_gt_0_iff_gt)
    let ?i = "entropy e (drawn st) mod length charset"
    let ?st = "st\<lparr>drawn := drawn st + 1\<rparr>"
    have r: "randomInt e (length charset) st = Inr (?i, ?st)"
      using "1.prems" by (simp add: randomInt_def)
    have k': "nat (len - int (length (charset ! ?i # result))) = k"
      using k by simp
    have "padLoop e charset len result st = padLoop e charset len (charset ! ?i # result) ?st"
      using True r by (subst padLoop.simps) simp
    also have "\<dots> = Inr (map (\<lambda>i. charset ! i) (specPadding e (length charset) (drawn ?st) k)
                    @ charset ! ?i # result, ?st\<lparr>drawn := drawn ?st + k\<rparr>)"
      using "1.IH" [OF True r refl] "1.prems" k' by simp
    finally show ?thesis using k by (simp add: specPadding_Suc)
  next
    case False
    then have "padLoop e charset len result st = Inr (result, st)"
      by (subst padLoop.simps) simp
    moreover from False have "nat (len - int (length result)) = 0" by simp
    ultimately show ?thesis by (simp add: specPadding_def)
  qed
qed

lemma length_specEncode: "length (specEncode e num charset target d) = target"
  using length_specRemainders [of "length charset" target num]
  by (simp add: specEncode_def specPadding_def Let_def)

lemma set_specEncode:
  "charset \<noteq> [] \<Longrightarrow> set (specEncode e num charset target d) \<subseteq> set charset"
  by (auto simp add: specEncode_def specPadding_def Let_def dest: specRemainders_bound [rotated])

lemma bufferToBase_eq:
  assumes "buf \<noteq> []" and "charset \<noteq> []" and "0 \<le> len"
  shows "bufferToBase e buf charset len st =
           Inr (specEncode e (bufferToNat buf) charset (nat len) (drawn st),
                st\<lparr>drawn := drawn st + (nat len
                       - length (specRemainders (length charset) (nat len) (bufferToNat buf)))\<rparr>)"
proof -
  let ?digits = "rev (specRemainders (length charset) (nat len) (bufferToNat buf))"
  have d: "digitLoop charset len (bufferToNat buf) [] = Inr (map (\<lambda>i. charset ! i) ?digits)"
    using digitLoop_eq [OF assms(2), of len "bufferToNat buf" "[]"] by simp
  have n: "nat (len - int (length (map (\<lambda>i. charset ! i) ?digits))) = nat len - length ?digits"
    using assms(3) by simp
  have p: "padLoop e charset len (map (\<lambda>i. charset ! i) ?digits) st =
             Inr (specEncode e (bufferToNat buf) charset (nat len) (drawn st),
                  st\<lparr>drawn := drawn st + (nat len - length ?digits)\<rparr>)"
    unfolding padLoop_eq [OF assms(2)] n by (simp add: specEncode_def Let_def)
  have "slice (specEncode e (bufferToNat buf) charset (nat len) (drawn st)) 0 len
          = specEncode e (bufferToNat buf) charset (nat len) (drawn st)"
    using assms(3) by (intro slice_all) (simp add: length_specEncode)
  then show ?thesis
    using assms(1) d p by (simp add: bufferToBase_def bindE_def)
qed

text \<open>
  C8, the claim as stated: for every byte buffer the encoding returns \<open>targetLength\<close>
  characters of the alphabet. For the empty buffer \<open>BigInt('0x')\<close> is a syntax error,
  and \<open>bufferToBase\<close> raises.
\<close>

theorem bufferToBase_rejects_empty_buffer:
  "bufferToBase demoEnv [] ''AB'' 4 initialState = Inl SyntaxError"
  by (simp add: bufferToBase_def)

text \<open>
  C8, amended. For every non-empty byte buffer, every non-empty alphabet and every target
  length (a natural number), \<open>bufferToBase\<close> returns exactly the string the specification
  describes: the remainders modulo the size of the alphabet of the buffer read as a big
  unsigned integer, most significant first and at most \<open>targetLength\<close> of them, with
  as many characters on the left as are missing, each taken at a freshly drawn random
  index. The string has \<open>targetLength\<close> characters, all of the alphabet, and the random
  source has moved on by the number of padding characters.
\<close>

theorem bufferToBase_encodes:
  assumes "buf \<noteq> []" and "charset \<noteq> []" and "0 \<le> len"
  shows "bufferToBase e buf charset len st =
           Inr (specEncode e (bufferToNat buf) charset (nat len) (drawn st),
                st\<lparr>drawn := drawn st + (nat len
                       - length (specRemainders (length charset) (nat len) (bufferToNat buf)))\<rparr>)
         \<and> length (specEncode e (bufferToNat buf) charset (nat len) (drawn st)) = nat len
         \<and> set (specEncode e (bufferToNat buf) charset (nat len) (drawn st)) \<subseteq> set charset"
  using bufferToBase_eq [OF assms] length_specEncode set_specEncode [OF assms(2)] by simp

theorem bufferToBase_encodes_witness:
  "[0, 0, 5] \<noteq> ([] :: buffer) \<and> ''ABC'' \<noteq> [] \<and> (0 :: int) \<le> 6
   \<and> map_sum id fst (bufferToBase demoEnv [0, 0, 5] ''ABC'' 6 initialState) = Inr ''BACBBC''
   \<and> length ''BACBBC'' = nat 6 \<and> set ''BACBBC'' \<subseteq> set ''ABC''"
proof -
  have v: "specEncode demoEnv (bufferToNat [0, 0, 5]) ''ABC'' (nat 6) (drawn initialState)
             = ''BACBBC''"
    by code_simp
  have h: "[0, 0, 5] \<noteq> ([] :: buffer)" "''ABC'' \<noteq> []" "(0 :: int) \<le> 6" by simp_all
  from bufferToBase_encodes [OF h, of demoEnv initialState] show ?thesis
    unfolding v using h by simp
qed

subsection \<open>The secret that a mode requires\<close>

lemma modeError_simps [simp]:
  "\<not> modeError (Inr v)"
  "modeError (Inl err) = (\<exists>m. err = SecretRequiredForMode m)"
  by (auto simp add: modeError_def)

lemma modeError_bindE [simp]:
  "modeError (bindE r f) = (modeError r \<or> (\<exists>v. r = Inr v \<and> modeError (f v)))"
  by (cases r) (auto simp add: bindE_def modeError_def)

lemma modeError_fromLibrary [simp]: "\<not> modeError (fromLibrary r)"
  by (cases r) (simp_all add: fromLibrary_def)

lemma modeError_if [simp]: "modeError (if c then a else b) = (if c then modeError a else modeError b)"
  by simp

lemma modeError_generateRandomBytes [simp]: "\<not> modeError (generateRandomBytes e n st)"
  by (simp add: generateRandomBytes_def)

lemma modeError_digitLoop [simp]: "\<not> modeError (digitLoop charset len num result)"
  by (induction charset len num result rule: digitLoop.induct)
     (subst digitLoop.simps, simp)

lemma modeError_randomInt [simp]: "\<not> modeError (randomInt e n st)"
  by (simp add: randomInt_def)

lemma modeError_padLoop [simp]: "\<not> modeError (padLoop e charset len result st)"
proof (induction e charset len result st rule: padLoop.induct)
  case (1 e charset len result st)
  show ?case
  proof (cases "randomInt e (length charset) st")
    case (Inl err)
    then show ?thesis
      using modeError_randomInt [of e "length charset" st]
      by (subst padLoop.simps) (simp del: modeError_randomInt)
  next
    case (Inr p)
    then show ?thesis
      using 1 by (subst padLoop.simps) (cases p, simp)
  qed
qed

lemma modeError_bufferToBase [simp]: "\<not> modeError (bufferToBase e buf charset len st)"
  by (simp add: bufferToBase_def split: prod.splits)

lemma modeError_generateRandomId [simp]:
  "\<not> modeError (generateRandomId e len charset enh rs st)"
  by (simp add: generateRandomId_def split: prod.splits)

lemma modeError_hmacSign [simp]: "\<not> modeError (hmacSign e d key a)"
  by (simp add: hmacSign_def Let_def)

lemma modeError_derivedKeyOf [simp]: "\<not> modeError (derivedKeyOf e sec slt pep a)"
  by (simp add: derivedKeyOf_def deriveKey_def Let_def)

lemma modeError_generateHashId [simp]:
  "\<not> modeError (generateHashId e len charset a embedData dbl st)"
  by (simp add: generateHashId_def Let_def split: prod.splits)

lemma modeError_generateHmacId [simp]:
  "\<not> modeError (generateHmacId e len charset sec slt pep a embedData st)"
  by (simp add: generateHmacId_def Let_def split: prod.splits)

lemma modeError_generateHybridId [simp]:
  "\<not> modeError (generateHybridId e len charset a sec slt pep embedData st)"
  by (simp add: generateHybridId_def Let_def split: prod.splits)

lemma modeError_generateHmacHashId [simp]:
  "\<not> modeError (generateHmacHashId e len charset a sec slt pep embedData dbl st)"
  by (simp add: generateHmacHashId_def Let_def split: prod.splits)

lemma modeError_generateMemoryHardId [simp]:
  "\<not> modeError (generateMemoryHardId e len charset sec embedData hard st)"
  by (simp add: generateMemoryHardId_def Let_def split: prod.splits)

lemma modeError_generatePostQuantumId [simp]:
  "\<not> modeError (generatePostQuantumId e len charset a embedData st)"
  by (simp add: generatePostQuantumId_def Let_def split: prod.splits)

lemma modeError_getQuantumRandomBytes [simp]:
  "\<not> modeError (getQuantumRandomBytes e n provider st)"
  by (simp add: getQuantumRandomBytes_def split: prod.splits)

lemma modeError_generateQuantumRandomId [simp]:
  "\<not> modeError (generateQuantumRandomId e len charset provider embedData st)"
  by (simp add: generateQuantumRandomId_def Let_def split: prod.splits)

lemma modeError_generateCore [simp]:
  "\<not> modeError (generateCore e opts charset len embedData st)"
  by (simp add: generateCore_def Let_def split: mode.splits)

lemma modeError_checksumBlock [simp]: "\<not> modeError (checksumBlock e ident len a sec i)"
  by (simp add: checksumBlock_def Let_def)

lemma modeError_mapE [simp]: "(\<And>x. \<not> modeError (f x)) \<Longrightarrow> \<not> modeError (mapE f xs)"
  by (induction xs) simp_all

lemma modeError_withChecksums [simp]: "\<not> modeError (withChecksums e opts idCore)"
  by (simp add: withChecksums_def addChecksums_def computeChecksums_def)

lemma generateRandomId_not_modeError:
  "generateRandomId e len charset enh rs st \<noteq> Inl (SecretRequiredForMode m)"
  using modeError_generateRandomId [of e len charset enh rs st] by (auto simp add: modeError_def)

lemma withChecksums_not_modeError:
  "withChecksums e opts idCore \<noteq> Inl (SecretRequiredForMode m)"
  using modeError_withChecksums [of e opts idCore] by (auto simp add: modeError_def)

lemma modeError_collisionLoop [simp]:
  "\<not> modeError (collisionLoop e opts charset len attempts finalId st)"
proof (induction e opts charset len attempts finalId st rule: collisionLoop.induct)
  case (1 e opts charset len attempts finalId st)
  show ?case
    using "1.IH"
    by (subst collisionLoop.simps)
       (auto simp add: generateRandomId_not_modeError withChecksums_not_modeError
             split: sum.splits prod.splits)
qed

lemma modeError_collisionCheck [simp]:
  "\<not> modeError (collisionCheck e opts charset len finalId st)"
  by (simp add: collisionCheck_def split: prod.splits)

lemma modeError_logAudit [simp]: "\<not> modeError (logAudit e action ident success)"
  by (simp add: logAudit_def)

lemma rateLimitCheck_errors:
  "rateLimitCheck e opts st = Inl err \<Longrightarrow> err = RateLimitExceeded \<or> err = LibraryError"
  by (auto simp add: rateLimitCheck_def logAudit_def fromLibrary_def bindE_def Let_def
      split: option.splits prod.splits if_splits)

lemma modeError_rateLimitCheck [simp]: "\<not> modeError (rateLimitCheck e opts st)"
  using rateLimitCheck_errors [of e opts st] by (cases "rateLimitCheck e opts st") auto

lemma modeError_validateRequirements:
  "modeError (validateRequirements opts) =
     ((mode opts = Hmac \<or> mode opts = HmacHash \<or> mode opts = MemoryHard) \<and> secret opts = [])"
  by (simp add: validateRequirements_def)

lemma modeError_generateContent:
  "secret opts \<noteq> [] \<Longrightarrow> \<not> modeError (generateContent e opts st)"
  by (simp add: generateContent_def modeError_validateRequirements Let_def split: prod.splits)

lemma generateContent_missing_secret:
  assumes "mode opts = Hmac \<or> mode opts = HmacHash \<or> mode opts = MemoryHard"
    and "secret opts = []"
  shows "generateContent e opts st =
           (case rateLimitCheck e opts st of
              Inl err \<Rightarrow> Inl err
            | Inr st1 \<Rightarrow> Inl (SecretRequiredForMode (mode opts)))"
  using assms
  by (simp add: generateContent_def validateRequirements_def bindE_def split: sum.splits)

text \<open>
  What the order of the checks in the cited \<open>generateId\<close> gives for the modes \<open>hmac\<close>,
  \<open>hmac-hash\<close> and \<open>memory-hard\<close>. Without a secret, the result is the secret-required
  error when the rate-limit gate lets the call through (in particular when no limiter is
  configured), and the error of that gate when it does not. With a secret, the
  secret-required error is never the result. Only the value raised is described here,
  not the work done before it: the gate, when it rejects an audited call, hashes the
  audit entry and calls the logger.
\<close>

lemma generateId_secret_check_after_gate:
  assumes "mode opts = Hmac \<or> mode opts = HmacHash \<or> mode opts = MemoryHard"
  shows "(secret opts = [] \<and> rateLimitCheck e opts st = Inr st1
            \<longrightarrow> generateId e opts st = Some (Inl (SecretRequiredForMode (mode opts))))
       \<and> (secret opts = [] \<and> rateLimit (security opts) = None
            \<longrightarrow> generateId e opts st = Some (Inl (SecretRequiredForMode (mode opts))))
       \<and> (secret opts = [] \<and> rateLimitCheck e opts st = Inl err
            \<longrightarrow> generateId e opts st = Some (Inl err)
                \<and> (err = RateLimitExceeded \<or> err = LibraryError))
       \<and> (secret opts \<noteq> [] \<longrightarrow> generateId e opts st \<noteq> Some (Inl (SecretRequiredForMode m)))"
proof -
  have a: "secret opts = [] \<Longrightarrow> rateLimitCheck e opts st = Inr st1
             \<Longrightarrow> generateId e opts st = Some (Inl (SecretRequiredForMode (mode opts)))" for st1
    using generateContent_missing_secret [OF assms, of e st] by (simp add: generateId_def)
  have b: "rateLimit (security opts) = None \<Longrightarrow> rateLimitCheck e opts st = Inr st"
    by (simp add: rateLimitCheck_def)
  have c: "secret opts = [] \<Longrightarrow> rateLimitCheck e opts st = Inl err
             \<Longrightarrow> generateId e opts st = Some (Inl err)"
    using generateContent_missing_secret [OF assms, of e st] by (simp add: generateId_def)
  have d: "secret opts \<noteq> [] \<Longrightarrow> generateId e opts st \<noteq> Some (Inl (SecretRequiredForMode m))"
  proof
    assume s: "secret opts \<noteq> []" and g: "generateId e opts st = Some (Inl (SecretRequiredForMode m))"
    from modeError_generateContent [OF s, of e st]
    have n: "generateContent e opts st \<noteq> Inl (SecretRequiredForMode m)"
      by (auto simp add: modeError_def)
    have l: "logAudit e action ident success \<noteq> Inl (SecretRequiredForMode m)"
      for action ident success
      using modeError_logAudit [of e action ident success] by (auto simp add: modeError_def)
    from g n show False
      by (auto simp add: generateId_def bindE_def Let_def l
          split: sum.splits prod.splits option.splits if_splits)
  qed
  from a b c d rateLimitCheck_errors [of e opts st err] show ?thesis by blast
qed


subsection \<open>What the payload generators return\<close>

lemma bufferToBase_drawnFrom:
  assumes "bufferToBase e buf charset len st = Inr (r, st')" and "charset \<noteq> []" and "0 \<le> len"
  shows "drawnFrom charset len r"
proof (cases "buf = []")
  case True
  with assms(1) show ?thesis by (simp add: bufferToBase_def)
next
  case False
  from bufferToBase_eq [OF False assms(2,3), of e st] assms(1)
  have "r = specEncode e (bufferToNat buf) charset (nat len) (drawn st)" by simp
  then show ?thesis
    using length_specEncode set_specEncode [OF assms(2)] by (simp add: drawnFrom_def)
qed

lemma bindE_Inr: "bindE r f = Inr v \<Longrightarrow> \<exists>x. r = Inr x \<and> f x = Inr v"
  by (cases r) (simp_all add: bindE_def)

lemma generateRandomId_drawnFrom:
  assumes "generateRandomId e len charset enh rs st = Inr (r, st')"
    and "charset \<noteq> []" and "0 \<le> len"
  shows "drawnFrom charset len r"
  using assms(1)
  by (auto simp add: generateRandomId_def dest!: bindE_Inr
      intro: bufferToBase_drawnFrom [OF _ assms(2,3)] split: if_splits)

lemma generateHashId_drawnFrom:
  assumes "generateHashId e len charset a embedData dbl st = Inr (r, st')"
    and "charset \<noteq> []" and "0 \<le> len"
  shows "drawnFrom charset len r"
  using assms(1)
  by (auto simp add: generateHashId_def Let_def dest!: bindE_Inr
      intro: bufferToBase_drawnFrom [OF _ assms(2,3)] split: if_splits)

lemma generateHmacId_drawnFrom:
  assumes "generateHmacId e len charset sec slt pep a embedData st = Inr (r, st')"
    and "charset \<noteq> []" and "0 \<le> len"
  shows "drawnFrom charset len r"
  using assms(1)
  by (auto simp add: generateHmacId_def Let_def dest!: bindE_Inr
      intro: bufferToBase_drawnFrom [OF _ assms(2,3)] split: if_splits)

lemma generateHmacHashId_drawnFrom:
  assumes "generateHmacHashId e len charset a sec slt pep embedData dbl st = Inr (r, st')"
    and "charset \<noteq> []" and "0 \<le> len"
  shows "drawnFrom charset len r"
  using assms(1)
  by (auto simp add: generateHmacHashId_def Let_def dest!: bindE_Inr
      intro: bufferToBase_drawnFrom [OF _ assms(2,3)] split: if_splits)

lemma generateMemoryHardId_drawnFrom:
  assumes "generateMemoryHardId e len charset sec embedData hard st = Inr (r, st')"
    and "charset \<noteq> []" and "0 \<le> len"
  shows "drawnFrom charset len r"
  using assms(1)
  by (auto simp add: generateMemoryHardId_def Let_def dest!: bindE_Inr
      intro: bufferToBase_drawnFrom [OF _ assms(2,3)] split: if_splits)

lemma generatePostQuantumId_drawnFrom:
  assumes "generatePostQuantumId e len charset a embedData st = Inr (r, st')"
    and "charset \<noteq> []" and "0 \<le> len"
  shows "drawnFrom charset len r"
  using assms(1)
  by (auto simp add: generatePostQuantumId_def Let_def dest!: bindE_Inr
      intro: bufferToBase_drawnFrom [OF _ assms(2,3)] split: if_splits)

lemma generateQuantumRandomId_drawnFrom:
  assumes "generateQuantumRandomId e len charset provider embedData st = Inr (r, st')"
    and "charset \<noteq> []" and "0 \<le> len"
  shows "drawnFrom charset len r"
  using assms(1)
  by (auto simp add: generateQuantumRandomId_def Let_def dest!: bindE_Inr
      intro: bufferToBase_drawnFrom [OF _ assms(2,3)] split: if_splits)

lemma drawnFrom_append:
  "drawnFrom charset a x \<Longrightarrow> drawnFrom charset b y \<Longrightarrow> 0 \<le> a \<Longrightarrow> 0 \<le> b
   \<Longrightarrow> drawnFrom charset (a + b) (x @ y)"
  by (auto simp add: drawnFrom_def nat_add_distrib)

lemma generateHybridId_drawnFrom:
  assumes "generateHybridId e len charset a sec slt pep embedData st = Inr (r, st')"
    and "charset \<noteq> []" and "0 \<le> len"
  shows "drawnFrom charset len r"
proof -
  let ?h = "(len + 1) div 2"
  have h: "0 \<le> ?h" "0 \<le> len - ?h" using assms(3) by auto
  from assms(1) obtain x s1 y where
    x: "generateRandomId e ?h charset False False st = Inr (x, s1)" and
    y: "(if sec \<noteq> [] then generateHmacId e (len - ?h) charset sec slt pep a embedData s1
         else generateHashId e (len - ?h) charset a embedData False s1) = Inr (y, st')" and
    r: "r = x @ y"
    by (auto simp add: generateHybridId_def Let_def dest!: bindE_Inr)
  have "drawnFrom charset ?h x"
    using generateRandomId_drawnFrom [OF x assms(2) h(1)] .
  moreover have "drawnFrom charset (len - ?h) y"
    using y generateHmacId_drawnFrom [OF _ assms(2) h(2)]
      generateHashId_drawnFrom [OF _ assms(2) h(2)]
    by (auto split: if_splits)
  ultimately show ?thesis
    using drawnFrom_append [of charset ?h x "len - ?h" y] h r by simp
qed

lemma generateCore_drawnFrom:
  assumes "generateCore e opts charset len embedData st = Inr (r, st')"
    and "charset \<noteq> []" and "0 \<le> len"
  shows "drawnFrom charset len r"
  using assms(1)
    generateRandomId_drawnFrom [OF _ assms(2,3)] generateHashId_drawnFrom [OF _ assms(2,3)]
    generateHmacId_drawnFrom [OF _ assms(2,3)] generateHybridId_drawnFrom [OF _ assms(2,3)]
    generateHmacHashId_drawnFrom [OF _ assms(2,3)]
    generateMemoryHardId_drawnFrom [OF _ assms(2,3)]
    generatePostQuantumId_drawnFrom [OF _ assms(2,3)]
    generateQuantumRandomId_drawnFrom [OF _ assms(2,3)]
  by (auto simp add: generateCore_def Let_def split: if_splits mode.splits)

lemma getCharset_nonempty: "getCharset a enforced \<noteq> []"
  by (simp add: getCharset_def)

lemma coreIdLength_ge: "8 \<le> coreIdLength opts"
  by (simp add: coreIdLength_def)

subsection \<open>Checksum blocks and their insertion\<close>

lemma mapE_Inr:
  "mapE f xs = Inr ys \<Longrightarrow> length ys = length xs \<and> (\<forall>i<length xs. f (xs ! i) = Inr (ys ! i))"
proof (induction xs arbitrary: ys)
  case Nil
  then show ?case by simp
next
  case (Cons x xs)
  from Cons.prems obtain y ys' where y: "f x = Inr y" and ys': "mapE f xs = Inr ys'"
    and ys: "ys = y # ys'"
    by (auto dest!: bindE_Inr)
  from Cons.IH [OF ys'] y ys show ?case
    by (auto simp add: nth_Cons split: nat.splits)
qed

lemma length_toHex: "length (toHex b) = 2 * length b"
  by (induction b) (simp_all add: toHex_def)

lemma hexDigits_lower: "\<forall>d \<in> set [0 ..< 16]. digitChar d \<in> set lowerHexDigits"
  by code_simp

lemma hexDigits_upper:
  "\<forall>c \<in> set lowerHexDigits. upperChar c \<in> set upperHexDigits"
  by code_simp

lemma set_toHex: "set (toHex b) \<subseteq> set lowerHexDigits"
proof -
  have "digitChar (unat w div 16) \<in> set lowerHexDigits
        \<and> digitChar (unat w mod 16) \<in> set lowerHexDigits" for w :: byte
  proof -
    have "unat w < 256" using unsigned_less [of w] by simp
    then have "unat w div 16 \<in> set [0 ..< 16]" "unat w mod 16 \<in> set [0 ..< 16]" by auto
    with hexDigits_lower show ?thesis by blast
  qed
  then show ?thesis by (auto simp add: toHex_def)
qed

lemma upperChar_idem: "upperChar (upperChar c) = upperChar c"
  by (auto simp add: upperChar_def Let_def)

lemma toUpperCase_idem: "toUpperCase (toUpperCase s) = toUpperCase s"
  by (simp add: toUpperCase_def upperChar_idem)

lemma length_applyCase: "length (applyCase s c) = length s"
  by (cases c) (simp_all add: applyCase_def toUpperCase_def toLowerCase_def)

lemma set_applyCase: "set (applyCase s c) \<subseteq> set s \<union> upperChar ` set s \<union> lowerChar ` set s"
  by (cases c) (auto simp add: applyCase_def toUpperCase_def toLowerCase_def)

lemma hashData_length: "standardDigests e \<Longrightarrow> 32 \<le> length (hashData e d a)"
  by (cases a) (simp_all add: hashData_def standardDigests_def hashNames_def digestLength_def)

lemma hmacSign_length: "standardDigests e \<Longrightarrow> hmacSign e d key a = Inr h \<Longrightarrow> 32 \<le> length h"
  by (auto simp add: hmacSign_def standardDigests_def fromLibrary_def Let_def
      split: if_splits option.splits)

lemma checksumBlock_shape:
  assumes "checksumBlock e ident len a sec i = Inr b"
  shows "set b \<subseteq> set upperHexDigits" and "length b \<le> nat len"
    and "toUpperCase b = b"
    and "standardDigests e \<Longrightarrow> len \<le> 64 \<Longrightarrow> length b = nat len"
proof -
  from assms obtain h where
    h: "(if sec \<noteq> [] then hmacSign e (utf8 (ident @ natToString 10 i)) sec a
         else Inr (hashData e (utf8 (ident @ natToString 10 i)) a)) = Inr h"
    and b: "b = toUpperCase (substring0 (toHex h) len)"
    by (auto simp add: checksumBlock_def Let_def dest!: bindE_Inr)
  have "set (substring0 (toHex h) len) \<subseteq> set lowerHexDigits"
    using set_toHex [of h] set_take_subset [of "nat len" "toHex h"]
    unfolding substring0_def by blast
  then show "set b \<subseteq> set upperHexDigits"
    using hexDigits_upper unfolding b toUpperCase_def by auto
  show "length b \<le> nat len" by (simp add: b toUpperCase_def substring0_def)
  show "toUpperCase b = b" by (simp add: b toUpperCase_idem)
  assume s: "standardDigests e" and l: "len \<le> 64"
  have "32 \<le> length h"
    using h hashData_length [OF s] hmacSign_length [OF s] by (auto split: if_splits)
  then show "length b = nat len"
    using l by (simp add: b toUpperCase_def substring0_def length_toHex)
qed

lemma computeChecksums_shape:
  assumes "computeChecksums e ident count len a sec = Inr blocks"
  shows "length blocks = nat count"
    and "\<forall>i < nat count. checksumBlock e ident len a sec i = Inr (blocks ! i)"
    and "\<forall>b \<in> set blocks. set b \<subseteq> set upperHexDigits \<and> length b \<le> nat len
           \<and> (standardDigests e \<and> len \<le> 64 \<longrightarrow> length b = nat len)"
proof -
  from mapE_Inr [OF assms [unfolded computeChecksums_def]]
  have l: "length blocks = nat count"
    and c: "\<forall>i < nat count. checksumBlock e ident len a sec i = Inr (blocks ! i)"
    by auto
  show "length blocks = nat count" by (rule l)
  show "\<forall>i < nat count. checksumBlock e ident len a sec i = Inr (blocks ! i)" by (rule c)
  show "\<forall>b \<in> set blocks. set b \<subseteq> set upperHexDigits \<and> length b \<le> nat len
           \<and> (standardDigests e \<and> len \<le> 64 \<longrightarrow> length b = nat len)"
  proof
    fix b assume "b \<in> set blocks"
    then obtain i where i: "i < nat count" and b: "b = blocks ! i"
      using l by (auto simp add: in_set_conv_nth)
    from c i b have "checksumBlock e ident len a sec i = Inr b" by simp
    from checksumBlock_shape [OF this]
    show "set b \<subseteq> set upperHexDigits \<and> length b \<le> nat len
           \<and> (standardDigests e \<and> len \<le> 64 \<longrightarrow> length b = nat len)"
      by blast
  qed
qed

lemma computeChecksums_plain:
  "computeChecksums e ident count len a [] =
     Inr (map (\<lambda>i. toUpperCase (substring0 (toHex (hashData e (utf8 (ident @ natToString 10 i)) a)) len))
            [0 ..< nat count])"
proof -
  have "mapE (checksumBlock e ident len a []) xs =
          Inr (map (\<lambda>i. toUpperCase (substring0 (toHex (hashData e (utf8 (ident @ natToString 10 i)) a)) len)) xs)"
    for xs
    by (induction xs) (simp_all add: checksumBlock_def bindE_def Let_def)
  then show ?thesis by (simp add: computeChecksums_def)
qed

lemma slice_sliceFrom: "slice s 0 k @ sliceFrom s k = s"
  by (simp add: slice_def sliceFrom_def relIndex_def)

lemma join_nil: "join xs [] = concat xs"
  by (induction xs "[] :: string" rule: join.induct) simp_all

lemma length_insertLoop:
  "length (insertLoop cs ps result offset)
     = length result + length (concat (take (length ps) cs))"
proof (induction cs ps result offset rule: insertLoop.induct)
  case (1 c cs p ps result offset)
  have "length (slice result 0 (p + offset) @ c @ sliceFrom result (p + offset))
          = length result + length c"
    using arg_cong [OF slice_sliceFrom [of result "p + offset"], of length] by simp
  with 1 show ?case by (simp add: Let_def)
qed simp_all

lemma set_insertLoop:
  "set (insertLoop cs ps result offset) \<subseteq> set result \<union> set (concat cs)"
proof (induction cs ps result offset rule: insertLoop.induct)
  case (1 c cs p ps result offset)
  have "set (slice result 0 (p + offset)) \<union> set (sliceFrom result (p + offset)) = set result"
    using arg_cong [OF slice_sliceFrom [of result "p + offset"], of set] by simp
  with 1 show ?case by (auto simp add: Let_def)
qed simp_all

lemma length_insertChecksums:
  "length (insertChecksums ident blocks position) =
     length ident
     + length (concat (case position of Positions ps \<Rightarrow> take (length ps) blocks | _ \<Rightarrow> blocks))"
  using arg_cong [OF slice_sliceFrom [of ident "int (length ident) div 2"], of length]
  by (cases position) (simp_all add: insertChecksums_def join_nil length_insertLoop Let_def)

lemma set_insertChecksums:
  "set (insertChecksums ident blocks position) \<subseteq> set ident \<union> set (concat blocks)"
  using arg_cong [OF slice_sliceFrom [of ident "int (length ident) div 2"], of set]
    set_insertLoop [of blocks _ ident 0]
  by (cases position) (auto simp add: insertChecksums_def join_nil Let_def)

subsection \<open>The shape of a generated identifier\<close>

lemma collisionLoop_invariant:
  "collisionLoop e opts charset len attempts finalId st = Inr (finalId', attempts', st')
   \<Longrightarrow> charset \<noteq> [] \<Longrightarrow> 0 \<le> len \<Longrightarrow> set charset \<subseteq> A
   \<Longrightarrow> \<exists>idCore. length idCore = nat len \<and> set idCore \<subseteq> A
         \<and> withChecksums e opts idCore = Inr finalId
   \<Longrightarrow> \<exists>idCore. length idCore = nat len \<and> set idCore \<subseteq> A
         \<and> withChecksums e opts idCore = Inr finalId'"
proof (induction e opts charset len attempts finalId st rule: collisionLoop.induct)
  case (1 e opts charset len attempts finalId st)
  show ?case
  proof (cases "finalId \<in> set (collisionStore st) \<and> attempts < 10")
    case False
    with "1.prems" show ?thesis by (subst (asm) collisionLoop.simps) auto
  next
    case True
    with "1.prems"(1) obtain idCore st2 f where
      g: "generateRandomId e len charset (enhanceEntropy (security opts))
            (reseed (security opts)) (snd (getCounter st)) = Inr (idCore, st2)" and
      w: "withChecksums e opts idCore = Inr f" and
      l: "collisionLoop e opts charset len (attempts + 1) f st2 = Inr (finalId', attempts', st')"
      by (subst (asm) collisionLoop.simps) (auto split: sum.splits prod.splits)
    from generateRandomId_drawnFrom [OF g "1.prems"(2,3)] "1.prems"(4)
    have "length idCore = nat len \<and> set idCore \<subseteq> A" by (auto simp add: drawnFrom_def)
    with w have "\<exists>idCore. length idCore = nat len \<and> set idCore \<subseteq> A
                   \<and> withChecksums e opts idCore = Inr f" by blast
    from "1.IH" [OF True g refl w l "1.prems"(2,3,4) this] show ?thesis .
  qed
qed

lemma generateContent_shape:
  assumes "generateContent e opts st = Inr (content, st')"
  shows "\<exists>idCore body. length idCore = nat (coreIdLength opts) \<and> set idCore \<subseteq> coreAlphabet opts
           \<and> withChecksums e opts idCore = Inr body
           \<and> content = (if steganography (security opts) \<and> hiddenData (security opts) \<noteq> []
                          then embedHiddenData body (hiddenData (security opts)) else body)"
proof -
  let ?cs = "getCharset (avoidAmbiguousChars (security opts)) (enforceCharset (security opts))"
  let ?len = "coreIdLength opts"
  have len: "0 \<le> ?len" using coreIdLength_ge [of opts] by simp
  from assms obtain st1 where r: "rateLimitCheck e opts st = Inr st1"
    by (auto simp add: generateContent_def dest!: bindE_Inr)
  obtain embedData st2 where ed: "buildEmbedData e opts st1 = (embedData, st2)"
    by (cases "buildEmbedData e opts st1")
  from assms r ed obtain idCore st3 finalId finalId' st4 where
    g: "generateCore e opts ?cs ?len embedData st2 = Inr (idCore, st3)" and
    w: "withChecksums e opts (applyCase idCore (caseOpt opts)) = Inr finalId" and
    c: "collisionCheck e opts ?cs ?len finalId st3 = Inr (finalId', st4)" and
    s: "content = (if steganography (security opts) \<and> hiddenData (security opts) \<noteq> []
                     then embedHiddenData finalId' (hiddenData (security opts)) else finalId')"
    by (auto simp add: generateContent_def Let_def dest!: bindE_Inr)
  from generateCore_drawnFrom [OF g getCharset_nonempty len]
  have d: "length idCore = nat ?len" "set idCore \<subseteq> set ?cs" by (simp_all add: drawnFrom_def)
  have a: "length (applyCase idCore (caseOpt opts)) = nat ?len"
    "set (applyCase idCore (caseOpt opts)) \<subseteq> coreAlphabet opts"
    using d set_applyCase [of idCore "caseOpt opts"]
    unfolding coreAlphabet_def Let_def by (simp add: length_applyCase, blast)
  have first: "\<exists>idCore. length idCore = nat ?len \<and> set idCore \<subseteq> coreAlphabet opts
                 \<and> withChecksums e opts idCore = Inr finalId"
    using a w by blast
  have "\<exists>idCore. length idCore = nat ?len \<and> set idCore \<subseteq> coreAlphabet opts
          \<and> withChecksums e opts idCore = Inr finalId'"
  proof (cases "collisionDetection (security opts)")
    case False
    with c first show ?thesis by (simp add: collisionCheck_def)
  next
    case True
    with c obtain attempts st5 where
      "collisionLoop e opts ?cs ?len 0 finalId st3 = Inr (finalId', attempts, st5)"
      by (auto simp add: collisionCheck_def dest!: bindE_Inr split: if_splits)
    from collisionLoop_invariant [OF this getCharset_nonempty len _ first]
    show ?thesis by (auto simp add: coreAlphabet_def Let_def)
  qed
  with s show ?thesis by blast
qed

lemma generateRandomId_returns:
  assumes "charset \<noteq> []" and "1 \<le> len" and "len \<le> 1000000000"
  shows "\<exists>r st'. generateRandomId e len charset False False st = Inr (r, st')"
proof -
  let ?bytes = "map (\<lambda>k. word_of_nat (entropy e k) :: byte) [drawn st ..< drawn st + nat (len * 2)]"
  have b: "generateRandomBytes e (len * 2) st
             = Inr (?bytes, st\<lparr>drawn := drawn st + nat (len * 2)\<rparr>)"
    using assms(2,3) by (simp add: generateRandomBytes_def)
  have n: "?bytes \<noteq> []" using assms(2) by simp
  from bufferToBase_eq [OF n assms(1), of len e] assms(2)
  show ?thesis by (simp add: generateRandomId_def b bindE_def)
qed

text \<open>Generation in the mode random, without a secret and without the optional gates.\<close>

lemma generateId_plain_random:
  assumes "rateLimit (security opts) = None" and "validateRequirements opts = Inr ()"
    and "algorithm opts \<noteq> KYBER768" and "algorithm opts \<noteq> DILITHIUM3"
    and "\<not> useQuantumRNG (security opts)" and "mode opts = Random"
    and "\<not> enhanceEntropy (security opts)" and "\<not> reseed (security opts)"
    and "secret opts = []" and "\<not> collisionDetection (security opts)"
    and "\<not> steganography (security opts)" and "\<not> audit (security opts)"
    and "separator opts = []" and "prefix opts = []" and "suffix opts = []"
    and "lengthOpt opts \<le> 1000000000" and "checksum opts" and "0 \<le> checksumCount opts * checksumLength opts"
  shows "\<exists>idCore st'. length idCore = nat (coreIdLength opts)
           \<and> generateId e opts st =
               Some (Inr (insertChecksums idCore
                            (map (\<lambda>i. toUpperCase (substring0 (toHex (hashData e
                                          (utf8 (idCore @ natToString 10 i)) (algorithm opts)))
                                        (checksumLength opts)))
                               [0 ..< nat (checksumCount opts)])
                            (checksumPosition opts), st'))"
proof -
  let ?cs = "getCharset (avoidAmbiguousChars (security opts)) (enforceCharset (security opts))"
  let ?len = "coreIdLength opts"
  have len: "1 \<le> ?len" "?len \<le> 1000000000" "0 \<le> ?len"
    using coreIdLength_ge [of opts] assms(16,17,18)
    by (auto simp add: coreIdLength_def metadataLength_def)
  obtain embedData st2 where ed: "buildEmbedData e opts st = (embedData, st2)"
    by (cases "buildEmbedData e opts st")
  from generateRandomId_returns [OF getCharset_nonempty len(1,2), of e _ _ st2]
  obtain r st3 where g: "generateRandomId e ?len ?cs False False st2 = Inr (r, st3)" by blast
  from generateRandomId_drawnFrom [OF g getCharset_nonempty len(3)]
  have l: "length (applyCase r (caseOpt opts)) = nat ?len"
    by (simp add: drawnFrom_def length_applyCase)
  have c: "generateCore e opts ?cs ?len embedData st2 = Inr (r, st3)"
    using assms g by (simp add: generateCore_def)
  have "generateContent e opts st =
          Inr (insertChecksums (applyCase r (caseOpt opts))
                 (map (\<lambda>i. toUpperCase (substring0 (toHex (hashData e
                               (utf8 (applyCase r (caseOpt opts) @ natToString 10 i))
                               (algorithm opts))) (checksumLength opts)))
                    [0 ..< nat (checksumCount opts)])
                 (checksumPosition opts), st3)"
    using assms ed c
    by (simp add: generateContent_def rateLimitCheck_def bindE_def withChecksums_def
        addChecksums_def computeChecksums_plain collisionCheck_def)
  then show ?thesis
    using assms l by (auto simp add: generateId_def wrapId_def)
qed

lemma plain_block_length:
  "length (toUpperCase (substring0 (toHex h) len)) \<le> nat len"
  "32 \<le> length h \<Longrightarrow> len \<le> 64 \<Longrightarrow> length (toUpperCase (substring0 (toHex h) len)) = nat len"
  by (simp_all add: toUpperCase_def substring0_def length_toHex)

lemma lengthInvariantOptions_plain:
  "rateLimit (security lengthInvariantOptions) = None"
  "validateRequirements lengthInvariantOptions = Inr ()"
  "algorithm lengthInvariantOptions = SHA256"
  "\<not> useQuantumRNG (security lengthInvariantOptions)"
  "mode lengthInvariantOptions = Random"
  "\<not> enhanceEntropy (security lengthInvariantOptions)"
  "\<not> reseed (security lengthInvariantOptions)"
  "secret lengthInvariantOptions = []"
  "\<not> collisionDetection (security lengthInvariantOptions)"
  "\<not> steganography (security lengthInvariantOptions)"
  "\<not> audit (security lengthInvariantOptions)"
  "separator lengthInvariantOptions = []"
  "prefix lengthInvariantOptions = []"
  "suffix lengthInvariantOptions = []"
  "lengthOpt lengthInvariantOptions = 20"
  "checksum lengthInvariantOptions"
  "checksumCount lengthInvariantOptions = 2"
  "checksumLength lengthInvariantOptions = 2"
  "checksumPosition lengthInvariantOptions = End"
  "coreIdLength lengthInvariantOptions = 16"
  by (simp_all add: lengthInvariantOptions_def defaultOptions_def defaultSecurity_def
      validateRequirements_def coreIdLength_def metadataLength_def)

text \<open>
  C6. With digests of the standard sizes, \<open>generateId({length: 20, checksum: true,
  checksumCount: 2, checksumLength: 2})\<close> returns, for every random source, hash function
  and state of the process, a string of exactly 20 characters: 16 of the core and two blocks
  of two checksum characters.
\<close>

theorem generateId_length_invariant:
  assumes "standardDigests e"
  shows "\<exists>ident st'. generateId e lengthInvariantOptions st = Some (Inr (ident, st'))
           \<and> length ident = 20"
proof -
  note p = lengthInvariantOptions_plain
  have "\<exists>idCore st'. length idCore = nat (coreIdLength lengthInvariantOptions)
           \<and> generateId e lengthInvariantOptions st =
               Some (Inr (insertChecksums idCore
                            (map (\<lambda>i. toUpperCase (substring0 (toHex (hashData e
                                          (utf8 (idCore @ natToString 10 i))
                                          (algorithm lengthInvariantOptions)))
                                        (checksumLength lengthInvariantOptions)))
                               [0 ..< nat (checksumCount lengthInvariantOptions)])
                            (checksumPosition lengthInvariantOptions), st'))"
    by (rule generateId_plain_random) (simp_all add: p)
  then obtain idCore st' where l: "length idCore = 16" and
    g: "generateId e lengthInvariantOptions st =
          Some (Inr (insertChecksums idCore
                       (map (\<lambda>i. toUpperCase (substring0 (toHex (hashData e
                                     (utf8 (idCore @ natToString 10 i)) SHA256)) 2))
                          [0 ..< 2]) End, st'))"
    by (auto simp add: p)
  have b: "length (toUpperCase (substring0 (toHex (hashData e d SHA256)) 2)) = 2" for d
    using plain_block_length(2) [OF hashData_length [OF assms], of 2 d SHA256] by simp
  have "length (insertChecksums idCore
                  (map (\<lambda>i. toUpperCase (substring0 (toHex (hashData e
                                (utf8 (idCore @ natToString 10 i)) SHA256)) 2))
                     [0 ..< 2]) End) = 20"
    using l by (simp add: length_insertChecksums b upt_rec)
  with g show ?thesis by blast
qed

theorem generateId_length_invariant_witness:
  "standardDigests demoEnv
   \<and> (\<exists>ident st'. generateId demoEnv lengthInvariantOptions initialState
                        = Some (Inr (ident, st'))
         \<and> length ident = 20)"
proof -
  have d: "standardDigests demoEnv"
    by (simp add: standardDigests_def demoEnv_def demoDigest_def digestLength_def)
  from generateId_length_invariant [OF d, of initialState] d show ?thesis by blast
qed

lemma insufficientLengthOptions_plain:
  "rateLimit (security insufficientLengthOptions) = None"
  "validateRequirements insufficientLengthOptions = Inr ()"
  "algorithm insufficientLengthOptions = SHA256"
  "\<not> useQuantumRNG (security insufficientLengthOptions)"
  "mode insufficientLengthOptions = Random"
  "\<not> enhanceEntropy (security insufficientLengthOptions)"
  "\<not> reseed (security insufficientLengthOptions)"
  "secret insufficientLengthOptions = []"
  "\<not> collisionDetection (security insufficientLengthOptions)"
  "\<not> steganography (security insufficientLengthOptions)"
  "\<not> audit (security insufficientLengthOptions)"
  "separator insufficientLengthOptions = []"
  "prefix insufficientLengthOptions = []"
  "suffix insufficientLengthOptions = []"
  "lengthOpt insufficientLengthOptions = 10"
  "checksum insufficientLengthOptions"
  "checksumCount insufficientLengthOptions = 2"
  "checksumLength insufficientLengthOptions = 2"
  "checksumPosition insufficientLengthOptions = End"
  "metadataLength insufficientLengthOptions = 14"
  "coreIdLength insufficientLengthOptions = 8"
  by (simp_all add: insufficientLengthOptions_def defaultOptions_def defaultSecurity_def
      validateRequirements_def ttlGiven_def coreIdLength_def metadataLength_def)

text \<open>
  C2. The claim: a configuration whose checksum and metadata lengths exceed the requested
  length is rejected with a configuration error. In the scenario of the specification the
  metadata length is 14 against a requested length of 10, and \<open>generateId\<close> returns an
  identifier all the same, for every environment and state: the core is floored at 8
  characters and the checksum blocks are added to it.
\<close>

theorem generateId_accepts_insufficient_length:
  "metadataLength insufficientLengthOptions = 14
   \<and> lengthOpt insufficientLengthOptions = 10
   \<and> (\<exists>ident st'. generateId e insufficientLengthOptions st = Some (Inr (ident, st'))
         \<and> 8 \<le> length ident \<and> length ident \<le> 12)"
proof -
  note p = insufficientLengthOptions_plain
  have "\<exists>idCore st'. length idCore = nat (coreIdLength insufficientLengthOptions)
           \<and> generateId e insufficientLengthOptions st =
               Some (Inr (insertChecksums idCore
                            (map (\<lambda>i. toUpperCase (substring0 (toHex (hashData e
                                          (utf8 (idCore @ natToString 10 i))
                                          (algorithm insufficientLengthOptions)))
                                        (checksumLength insufficientLengthOptions)))
                               [0 ..< nat (checksumCount insufficientLengthOptions)])
                            (checksumPosition insufficientLengthOptions), st'))"
    by (rule generateId_plain_random) (simp_all add: p)
  then obtain idCore st' where l: "length idCore = 8" and
    g: "generateId e insufficientLengthOptions st =
          Some (Inr (insertChecksums idCore
                       (map (\<lambda>i. toUpperCase (substring0 (toHex (hashData e
                                     (utf8 (idCore @ natToString 10 i)) SHA256)) 2))
                          [0 ..< 2]) End, st'))"
    by (auto simp add: p)
  have b: "length (toUpperCase (substring0 (toHex (hashData e d SHA256)) 2)) \<le> 2" for d
    using plain_block_length(1) [of "hashData e d SHA256" 2] by simp
  have "8 \<le> length (insertChecksums idCore
                  (map (\<lambda>i. toUpperCase (substring0 (toHex (hashData e
                                (utf8 (idCore @ natToString 10 i)) SHA256)) 2))
                     [0 ..< 2]) End)
        \<and> length (insertChecksums idCore
                  (map (\<lambda>i. toUpperCase (substring0 (toHex (hashData e
                                (utf8 (idCore @ natToString 10 i)) SHA256)) 2))
                     [0 ..< 2]) End) \<le> 12"
    using l b [of "utf8 (idCore @ natToString 10 0)"] b [of "utf8 (idCore @ natToString 10 1)"]
    by (simp add: length_insertChecksums upt_rec)
  with g p show ?thesis by blast
qed

subsection \<open>Separators, prefix and suffix are undone by the parser\<close>

lemma slice_nat:
  "0 \<le> i \<Longrightarrow> i \<le> j \<Longrightarrow> slice s i j = take (nat j - nat i) (drop (nat i) s)"
  by (auto simp add: slice_def relIndex_def Let_def min_def)

lemma sliceFrom_nat: "0 \<le> i \<Longrightarrow> sliceFrom s i = drop (nat i) s"
  by (auto simp add: sliceFrom_def relIndex_def min_def)

lemma slice_drop_tail:
  assumes "0 < k" and "int k \<le> int (length s)"
  shows "slice s 0 (- int k) = take (length s - k) s"
proof -
  have "nat (int (length s) - int k) = length s - k" by linarith
  with assms show ?thesis by (simp add: slice_def relIndex_def Let_def)
qed

lemma segment_step:
  assumes "0 \<le> i" and "0 < n"
  shows "slice s i (i + n) @ drop (nat (i + n)) s = drop (nat i) s"
proof -
  have "slice s i (i + n) = take (nat n) (drop (nat i) s)"
    using assms by (simp add: slice_nat nat_add_distrib)
  moreover have "drop (nat (i + n)) s = drop (nat n) (drop (nat i) s)"
    using assms by (simp add: nat_add_distrib add.commute)
  ultimately show ?thesis by (simp only: append_take_drop_id)
qed

lemma segmentLoop_returns:
  "0 < n \<Longrightarrow> 0 \<le> i \<Longrightarrow>
   \<exists>chunks. segmentLoop ident n i segs = Some (segs @ chunks)
            \<and> concat chunks = drop (nat i) ident"
proof (induction "length ident - nat i" arbitrary: i segs rule: less_induct)
  case less
  show ?case
  proof (cases "i < int (length ident)")
    case False
    then have "segmentLoop ident n i segs = Some segs"
      by (subst segmentLoop.simps) simp
    moreover from False less.prems have "drop (nat i) ident = []" by simp
    ultimately show ?thesis by simp
  next
    case True
    then have s: "segmentLoop ident n i segs =
                    segmentLoop ident n (i + n) (segs @ [slice ident i (i + n)])"
      by (subst segmentLoop.simps) simp
    have "length ident - nat (i + n) < length ident - nat i"
      using True less.prems by linarith
    from less.hyps [OF this less.prems(1), of "segs @ [slice ident i (i + n)]"] less.prems
    obtain chunks where
      c: "segmentLoop ident n (i + n) (segs @ [slice ident i (i + n)])
            = Some ((segs @ [slice ident i (i + n)]) @ chunks)"
      and d: "concat chunks = drop (nat (i + n)) ident"
      by auto
    have "concat (slice ident i (i + n) # chunks) = drop (nat i) ident"
      using d segment_step [OF less.prems(2,1), of ident] by simp
    with s c show ?thesis by (intro exI [of _ "slice ident i (i + n) # chunks"]) simp
  qed
qed

lemma insertSeparators_returns:
  assumes "0 < n"
  shows "\<exists>chunks. insertSeparators ident sep n = Some (join chunks sep) \<and> concat chunks = ident"
  using segmentLoop_returns [OF assms, of 0 ident "[]"] by (auto simp add: insertSeparators_def)

lemma splitFrom_skip:
  "sep \<noteq> [] \<Longrightarrow> hd sep \<notin> set x \<Longrightarrow> splitFrom sep cur (x @ rest) = splitFrom sep (cur @ x) rest"
proof (induction x arbitrary: cur)
  case Nil
  then show ?case by simp
next
  case (Cons c x)
  from Cons.prems have n: "\<not> startsWith (c # x @ rest) sep"
    by (cases sep) (auto simp add: startsWith_def)
  have "splitFrom sep cur ((c # x) @ rest) = splitFrom sep (cur @ [c]) (x @ rest)"
    using n by (subst splitFrom.simps) simp
  also have "\<dots> = splitFrom sep ((cur @ [c]) @ x) rest"
    using Cons by simp
  finally show ?case by simp
qed

lemma splitFrom_sep:
  "sep \<noteq> [] \<Longrightarrow> splitFrom sep cur (sep @ rest) = cur # splitFrom sep [] rest"
  by (subst splitFrom.simps) (simp add: startsWith_def)

lemma splitFrom_nil: "splitFrom sep cur [] = [cur]"
  by (subst splitFrom.simps) simp

lemma concat_split_join:
  "sep \<noteq> [] \<Longrightarrow> \<forall>x \<in> set segs. hd sep \<notin> set x
   \<Longrightarrow> concat (splitFrom sep cur (join segs sep)) = cur @ concat segs"
proof (induction segs sep arbitrary: cur rule: join.induct)
  case (1 sep)
  then show ?case by (simp add: splitFrom_nil)
next
  case (2 x sep)
  then show ?case
    using splitFrom_skip [of sep x cur "[]"] by (simp add: splitFrom_nil)
next
  case (3 x y ys sep)
  have "splitFrom sep cur (join (x # y # ys) sep) = splitFrom sep (cur @ x) (sep @ join (y # ys) sep)"
    using 3 splitFrom_skip [of sep x cur "sep @ join (y # ys) sep"] by simp
  also have "\<dots> = (cur @ x) # splitFrom sep [] (join (y # ys) sep)"
    using 3 by (simp add: splitFrom_sep)
  finally show ?case using 3 by simp
qed

lemma removeSeparators_join:
  assumes "separator opts \<noteq> []" and "hd (separator opts) \<notin> set (concat segs)"
  shows "removeSeparators opts (join segs (separator opts)) = concat segs"
  using concat_split_join [OF assms(1), of segs "[]"] assms
  by (simp add: removeSeparators_def split_def join_nil)

lemma removePrefix_wrap:
  "prefix opts \<noteq> [] \<Longrightarrow> removePrefix opts (prefix opts @ separator opts @ x) = x"
  by (simp add: removePrefix_def Let_def startsWith_def sliceFrom_nat)

lemma removeSuffix_wrap:
  assumes "suffix opts \<noteq> []"
  shows "removeSuffix opts (x @ separator opts @ suffix opts) = x"
proof -
  let ?k = "length (separator opts @ suffix opts)"
  have e: "endsWith (x @ separator opts @ suffix opts) (separator opts @ suffix opts)"
    by (simp add: endsWith_def)
  have k: "0 < ?k" "int ?k \<le> int (length (x @ separator opts @ suffix opts))"
    using assms by simp_all
  have "slice (x @ separator opts @ suffix opts) 0 (- int ?k) = x"
    unfolding slice_drop_tail [OF k] by simp
  with e assms show ?thesis by (simp add: removeSuffix_def Let_def)
qed

lemma unwrapId: "removeSuffix opts (removePrefix opts (wrapId opts x)) = x"
proof -
  let ?rest = "if suffix opts \<noteq> [] then x @ separator opts @ suffix opts else x"
  have w: "wrapId opts x = (if prefix opts \<noteq> [] then prefix opts @ separator opts @ ?rest
                           else ?rest)"
    by (simp add: wrapId_def Let_def)
  have p: "removePrefix opts (wrapId opts x) = ?rest"
  proof (cases "prefix opts = []")
    case True
    then show ?thesis unfolding w by (simp add: removePrefix_def)
  next
    case False
    then show ?thesis unfolding w using removePrefix_wrap [OF False, of ?rest] by simp
  qed
  show ?thesis
  proof (cases "suffix opts = []")
    case True
    then show ?thesis unfolding p by (simp add: removeSuffix_def)
  next
    case False
    then show ?thesis unfolding p using removeSuffix_wrap [OF False, of x] by simp
  qed
qed

end
